theory Spec2Isabelle
  imports Complex_Main "HOL-Library.FSet" "HOL-Library.AList" "HOL-Library.Sublist"
begin

section \<open>Python values, exceptions and the HTTP client\<close>

text \<open>
  The script \<^verbatim>\<open>calendly_license_monitor.py\<close> handles values decoded from JSON
  responses without checking their shape, so the model keeps them dynamically typed.
  A dict is an association list whose first binding of a key is the one looked up; a
  number is a rational (only its truth value is ever observed). A \<open>string\<close> is the
  text as a list of 8-bit characters (its UTF-8 encoding); the script only joins strings,
  compares them and lower-cases them.
\<close>

datatype json =
    JNull
  | JBool bool
  | JNum rat
  | JStr string
  | JList "json list"
  | JDict "(string \<times> json) list"

datatype error =
    ValueError string
  | HTTPError
  | RequestException
  | JSONDecodeError
  | AttributeError
  | TypeError
  | KeyError string

text \<open>Sequencing of computations that may raise: the first exception wins.\<close>

definition bind_e :: "error + 'a \<Rightarrow> ('a \<Rightarrow> error + 'b) \<Rightarrow> error + 'b" where
  "bind_e m f = (case m of Inl e \<Rightarrow> Inl e | Inr x \<Rightarrow> f x)"

text \<open>Truth value of an object, as tested by \<^verbatim>\<open>while url:\<close> and \<^verbatim>\<open>all([...])\<close>.\<close>

definition truthy :: "json \<Rightarrow> bool" where
  "truthy v =
     (case v of
        JNull \<Rightarrow> False
      | JBool b \<Rightarrow> b
      | JNum n \<Rightarrow> n \<noteq> 0
      | JStr s \<Rightarrow> s \<noteq> []
      | JList xs \<Rightarrow> xs \<noteq> []
      | JDict kvs \<Rightarrow> kvs \<noteq> [])"

text \<open>\<^verbatim>\<open>v.get(k, default)\<close>: only a dict has the method.\<close>

definition py_get :: "json \<Rightarrow> string \<Rightarrow> json \<Rightarrow> error + json" where
  "py_get v k dflt =
     (case v of
        JDict kvs \<Rightarrow> Inr (case map_of kvs k of None \<Rightarrow> dflt | Some x \<Rightarrow> x)
      | _ \<Rightarrow> Inl AttributeError)"

text \<open>\<^verbatim>\<open>v[k]\<close> with a string key: KeyError on a dict without the key, TypeError on anything
  that is not a dict.\<close>

definition py_getitem :: "json \<Rightarrow> string \<Rightarrow> error + json" where
  "py_getitem v k =
     (case v of
        JDict kvs \<Rightarrow> (case map_of kvs k of None \<Rightarrow> Inl (KeyError k) | Some x \<Rightarrow> Inr x)
      | _ \<Rightarrow> Inl TypeError)"

text \<open>Iteration (\<^verbatim>\<open>list.extend\<close>, \<^verbatim>\<open>for user in data\<close>): a list yields its elements, a dict
  its keys, a string its characters; nothing else is iterable.\<close>

definition py_iter :: "json \<Rightarrow> error + json list" where
  "py_iter v =
     (case v of
        JList xs \<Rightarrow> Inr xs
      | JDict kvs \<Rightarrow> Inr (map (\<lambda>kv. JStr (fst kv)) kvs)
      | JStr s \<Rightarrow> Inr (map (\<lambda>c. JStr [c]) s)
      | _ \<Rightarrow> Inl TypeError)"

text \<open>\<^verbatim>\<open>v.lower()\<close>: only a string has the method. What \<^verbatim>\<open>str.lower\<close> makes of a string is
  decided by the case mappings of Unicode, which are no part of the script: the function is
  the parameter \<open>lower\<close> of everything that calls it, and nothing is assumed of it.\<close>

definition py_lower :: "(string \<Rightarrow> string) \<Rightarrow> json \<Rightarrow> error + string" where
  "py_lower lower v = (case v of JStr s \<Rightarrow> Inr (lower s) | _ \<Rightarrow> Inl AttributeError)"

text \<open>
  The \<^verbatim>\<open>requests\<close> library. A request records what \<^verbatim>\<open>requests.get\<close> or
  \<^verbatim>\<open>requests.post\<close> was called with. A response carries what the script reads from it:
  the status code (for \<^verbatim>\<open>raise_for_status\<close>), the decoded body (\<open>None\<close> when the body is
  not JSON) and the parsed \<^verbatim>\<open>Link\<close> headers (relation name to link attributes).
  The outside world is a \<open>server\<close>: it answers a request, knowing every request made
  before it, with a response or with an exception of the client (no connection, bad URL).
\<close>

datatype http_method = GET | POST

record request =
  req_method :: http_method
  req_url :: json
  req_headers :: "(string \<times> string) list"
  req_json :: "json option"

record response =
  status_code :: nat
  content :: "json option"
  links :: "(string \<times> (string \<times> string) list) list"

type_synonym server = "request list \<Rightarrow> request \<Rightarrow> error + response"

definition raise_for_status :: "response \<Rightarrow> error + unit" where
  "raise_for_status r =
     (if 400 \<le> status_code r \<and> status_code r < 600 then Inl HTTPError else Inr ())"

definition response_json :: "response \<Rightarrow> error + json" where
  "response_json r = (case content r of None \<Rightarrow> Inl JSONDecodeError | Some v \<Rightarrow> Inr v)"

definition requests_get :: "json \<Rightarrow> (string \<times> string) list \<Rightarrow> request" where
  "requests_get url headers =
     \<lparr>req_method = GET, req_url = url, req_headers = headers, req_json = None\<rparr>"

definition requests_post :: "json \<Rightarrow> json \<Rightarrow> request" where
  "requests_post url payload =
     \<lparr>req_method = POST, req_url = url, req_headers = [], req_json = Some payload\<rparr>"

section \<open>The script\<close>

definition TOTAL_LICENSES :: int where
  "TOTAL_LICENSES = 65"

subsection \<open>fetch_calendly_users\<close>

text \<open>One round of the loop after the response has arrived (source lines 48 to 51):
  the members the page adds to \<^verbatim>\<open>users\<close> and the next value of \<^verbatim>\<open>url\<close>.\<close>

definition calendly_page :: "response \<Rightarrow> error + (json list \<times> json)" where
  "calendly_page response =
     bind_e (raise_for_status response) (\<lambda>_.
     bind_e (response_json response) (\<lambda>data.
     bind_e (py_get data ''collection'' (JList [])) (\<lambda>c.
     bind_e (py_iter c) (\<lambda>items.
     bind_e (py_get data ''pagination'' (JDict [])) (\<lambda>p.
     bind_e (py_get p ''next_page'' JNull) (\<lambda>url'.
     Inr (items, url')))))))"

text \<open>The loop \<^verbatim>\<open>while url:\<close>. It need not end (a server may always name a next page), so
  the result is optional: \<open>None\<close> is a run that never returns. The list of requests sent is
  threaded through.\<close>

partial_function (option) calendly_loop ::
  "server \<Rightarrow> (string \<times> string) list \<Rightarrow> json \<Rightarrow> json list \<Rightarrow> request list
     \<Rightarrow> ((error + json list) \<times> request list) option" where
  "calendly_loop srv headers url users sent =
     (if truthy url then
        (case srv sent (requests_get url headers) of
           Inl e \<Rightarrow> Some (Inl e, sent @ [requests_get url headers])
         | Inr response \<Rightarrow>
             (case calendly_page response of
                Inl e \<Rightarrow> Some (Inl e, sent @ [requests_get url headers])
              | Inr (items, url') \<Rightarrow>
                  calendly_loop srv headers url' (users @ items)
                    (sent @ [requests_get url headers])))
      else Some (Inr users, sent))"

declare calendly_loop.simps [code]

text \<open>The set comprehension \<^verbatim>\<open>{u["user"]["email"].lower() for u in users}\<close>, in order.\<close>

fun calendly_emails :: "(string \<Rightarrow> string) \<Rightarrow> json list \<Rightarrow> error + string list" where
  "calendly_emails lower [] = Inr []"
| "calendly_emails lower (u # us) =
     bind_e (py_getitem u ''user'') (\<lambda>usr.
     bind_e (py_getitem usr ''email'') (\<lambda>e.
     bind_e (py_lower lower e) (\<lambda>s.
     bind_e (calendly_emails lower us) (\<lambda>rest. Inr (s # rest)))))"

text \<open>The request headers and the first URL (source lines 42 and 44).\<close>

definition calendly_headers :: "string \<Rightarrow> (string \<times> string) list" where
  "calendly_headers calendly_token =
     [(''Authorization'', ''Bearer '' @ calendly_token),
      (''Content-Type'', ''application/json'')]"

definition calendly_url :: "string \<Rightarrow> string" where
  "calendly_url calendly_org_url =
     ''https://api.calendly.com/organization_memberships?organization='' @ calendly_org_url"

definition fetch_calendly_users ::
  "(string \<Rightarrow> string) \<Rightarrow> server \<Rightarrow> string \<Rightarrow> string \<Rightarrow> request list
     \<Rightarrow> ((error + string fset) \<times> request list) option" where
  "fetch_calendly_users lower srv calendly_token calendly_org_url sent =
     (let headers = calendly_headers calendly_token;
          url = calendly_url calendly_org_url
      in case calendly_loop srv headers (JStr url) [] sent of
           None \<Rightarrow> None
         | Some (Inl e, sent') \<Rightarrow> Some (Inl e, sent')
         | Some (Inr users, sent') \<Rightarrow>
             Some (bind_e (calendly_emails lower users) (\<lambda>es. Inr (fset_of_list es)), sent'))"

subsection \<open>fetch_okta_group_members\<close>

text \<open>The inner loop \<^verbatim>\<open>for user in data\<close> (source lines 65 to 68); \<^verbatim>\<open>users\<close> is a dict
  keyed by the lower-cased email.\<close>

fun okta_collect ::
  "(string \<Rightarrow> string) \<Rightarrow> json list \<Rightarrow> (string \<times> json) list
     \<Rightarrow> error + (string \<times> json) list" where
  "okta_collect lower [] users = Inr users"
| "okta_collect lower (user # rest) users =
     bind_e (py_getitem user ''profile'') (\<lambda>p.
     bind_e (py_getitem p ''email'') (\<lambda>e.
     bind_e (py_lower lower e) (\<lambda>email.
     okta_collect lower rest (AList.update email user users))))"

text \<open>\<^verbatim>\<open>response.links.get("next", {}).get("url")\<close>.\<close>

definition next_link :: "response \<Rightarrow> json" where
  "next_link response =
     (case map_of (links response) ''next'' of
        None \<Rightarrow> JNull
      | Some l \<Rightarrow> (case map_of l ''url'' of None \<Rightarrow> JNull | Some u \<Rightarrow> JStr u))"

text \<open>One round of the loop after the response has arrived (source lines 63 to 69).\<close>

definition okta_page ::
  "(string \<Rightarrow> string) \<Rightarrow> response \<Rightarrow> (string \<times> json) list
     \<Rightarrow> error + ((string \<times> json) list \<times> json)" where
  "okta_page lower response users =
     bind_e (raise_for_status response) (\<lambda>_.
     bind_e (response_json response) (\<lambda>data.
     bind_e (py_iter data) (\<lambda>members.
     bind_e (okta_collect lower members users) (\<lambda>users'.
     Inr (users', next_link response)))))"

partial_function (option) okta_loop ::
  "(string \<Rightarrow> string) \<Rightarrow> server \<Rightarrow> (string \<times> string) list \<Rightarrow> json
     \<Rightarrow> (string \<times> json) list \<Rightarrow> request list
     \<Rightarrow> ((error + (string \<times> json) list) \<times> request list) option" where
  "okta_loop lower srv headers url users sent =
     (if truthy url then
        (case srv sent (requests_get url headers) of
           Inl e \<Rightarrow> Some (Inl e, sent @ [requests_get url headers])
         | Inr response \<Rightarrow>
             (case okta_page lower response users of
                Inl e \<Rightarrow> Some (Inl e, sent @ [requests_get url headers])
              | Inr (users', url') \<Rightarrow>
                  okta_loop lower srv headers url' users'
                    (sent @ [requests_get url headers])))
      else Some (Inr users, sent))"

declare okta_loop.simps [code]

text \<open>The request headers and the first URL (source lines 57 and 59).\<close>

definition okta_headers :: "string \<Rightarrow> (string \<times> string) list" where
  "okta_headers okta_token =
     [(''Authorization'', ''SSWS '' @ okta_token), (''Accept'', ''application/json'')]"

definition okta_url :: "string \<Rightarrow> string \<Rightarrow> string" where
  "okta_url okta_base_url group_id = okta_base_url @ ''/groups/'' @ group_id @ ''/users''"

definition fetch_okta_group_members ::
  "(string \<Rightarrow> string) \<Rightarrow> server \<Rightarrow> string \<Rightarrow> string \<Rightarrow> string \<Rightarrow> request list
     \<Rightarrow> ((error + string fset) \<times> request list) option" where
  "fetch_okta_group_members lower srv okta_token okta_base_url group_id sent =
     (let headers = okta_headers okta_token;
          url = okta_url okta_base_url group_id
      in case okta_loop lower srv headers (JStr url) [] sent of
           None \<Rightarrow> None
         | Some (Inl e, sent') \<Rightarrow> Some (Inl e, sent')
         | Some (Inr users, sent') \<Rightarrow> Some (Inr (fset_of_list (map fst users)), sent'))"

subsection \<open>calculate_license_counts\<close>

record license_counts =
  total_licenses :: int
  licenses_used :: int
  licenses_available :: int

definition calculate_license_counts :: "string fset \<Rightarrow> string fset \<Rightarrow> license_counts" where
  "calculate_license_counts calendly_users okta_users =
     (let matched_users = calendly_users |\<inter>| okta_users;
          used = int (fcard matched_users);
          available = TOTAL_LICENSES - used
      in \<lparr>total_licenses = TOTAL_LICENSES, licenses_used = used,
          licenses_available = available\<rparr>)"

subsection \<open>post_to_slack\<close>

definition post_to_slack ::
  "server \<Rightarrow> string \<Rightarrow> string \<Rightarrow> request list \<Rightarrow> (error + unit) \<times> request list" where
  "post_to_slack srv webhook_url message sent =
     (let payload = JDict [(''text'', JStr message)];
          rq = requests_post (JStr webhook_url) payload
      in (bind_e (srv sent rq) raise_for_status, sent @ [rq]))"

subsection \<open>main\<close>

text \<open>Decimal rendering of an integer inside an f-string.\<close>

fun str_nat :: "nat \<Rightarrow> string" where
  "str_nat n =
     (if n < 10 then [char_of (48 + n)]
      else str_nat (n div 10) @ [char_of (48 + n mod 10)])"

definition str_int :: "int \<Rightarrow> string" where
  "str_int i = (if i < 0 then CHR ''-'' # str_nat (nat (- i)) else str_nat (nat i))"

definition nl :: string where
  "nl = [CHR 0x0A]"

definition overage_message :: "license_counts \<Rightarrow> string" where
  "overage_message license_counts =
     '':rotating_light:calendly: *Calendly License Alert* :calendly::rotating_light:'' @ nl
     @ ''Used Licenses: '' @ str_int (licenses_used license_counts) @ nl
     @ ''Total Licenses: '' @ str_int (total_licenses license_counts) @ nl
     @ ''Overage: '' @ str_int (licenses_used license_counts - TOTAL_LICENSES) @ nl
     @ ''*Immediate action required to resolve the overage.*''"

definition report_message :: "license_counts \<Rightarrow> string" where
  "report_message license_counts =
     '':calendly: *Calendly License Report* :calendly:'' @ nl
     @ ''Used Licenses: '' @ str_int (licenses_used license_counts) @ nl
     @ ''Total Licenses: '' @ str_int (total_licenses license_counts) @ nl
     @ ''Available Licenses: '' @ str_int (licenses_available license_counts) @ nl
     @ ''*All licenses are within the allocated limit.*''"

text \<open>The choice of template (source lines 115 to 130).\<close>

definition alert_message :: "license_counts \<Rightarrow> string" where
  "alert_message license_counts =
     (if licenses_used license_counts > TOTAL_LICENSES then overage_message license_counts
      else report_message license_counts)"

text \<open>What a run leaves behind: the requests made, in order, and the lines printed.\<close>

record world =
  http_log :: "request list"
  stdout :: "string list"

text \<open>\<^verbatim>\<open>os.getenv\<close> gives \<open>None\<close> for a variable that is not set; \<^verbatim>\<open>all\<close> rejects
  \<open>None\<close> and the empty string alike. Past that test every variable holds a string, which
  is what \<open>the\<close> reads below. Each \<^verbatim>\<open>print\<close> adds a line to \<open>stdout\<close>, and an exception
  ends the run with the log and the output as they are at that point.\<close>

definition env_truthy :: "string option \<Rightarrow> bool" where
  "env_truthy v = (case v of None \<Rightarrow> False | Some s \<Rightarrow> s \<noteq> [])"

definition main ::
  "(string \<Rightarrow> string) \<Rightarrow> server \<Rightarrow> (string \<rightharpoonup> string)
     \<Rightarrow> ((error + unit) \<times> world) option" where
  "main lower srv environ =
     (let calendly_token = environ ''CALENDLY_API_TOKEN'';
          calendly_org_url = environ ''CALENDLY_ORG_URL'';
          okta_token = environ ''OKTA_API_TOKEN'';
          okta_base_url = environ ''OKTA_BASE_URL'';
          group_id = environ ''OKTA_CALENDLY_GROUP_ID'';
          slack_webhook_url = environ ''SLACK_WEBHOOK_URL''
      in
      if \<not> list_all env_truthy [calendly_token, calendly_org_url, okta_token,
                                okta_base_url, group_id, slack_webhook_url]
      then Some (Inl (ValueError ''Missing required environment variables.''),
                 \<lparr>http_log = [], stdout = []\<rparr>)
      else
        let out1 = [''Fetching Calendly users...''] in
        case fetch_calendly_users lower srv (the calendly_token) (the calendly_org_url) [] of
          None \<Rightarrow> None
        | Some (Inl e, sent1) \<Rightarrow> Some (Inl e, \<lparr>http_log = sent1, stdout = out1\<rparr>)
        | Some (Inr calendly_users, sent1) \<Rightarrow>
            let out2 = out1 @ [''Fetching Okta group members...''] in
            (case fetch_okta_group_members lower srv (the okta_token) (the okta_base_url)
                    (the group_id) sent1 of
               None \<Rightarrow> None
             | Some (Inl e, sent2) \<Rightarrow> Some (Inl e, \<lparr>http_log = sent2, stdout = out2\<rparr>)
             | Some (Inr okta_users, sent2) \<Rightarrow>
                 let out3 = out2 @ [''Calculating license counts...''];
                     license_counts = calculate_license_counts calendly_users okta_users;
                     message = alert_message license_counts;
                     out4 = out3 @ [''Sending alert to Slack...''];
                     (r, sent3) = post_to_slack srv (the slack_webhook_url) message sent2
                 in Some (r, \<lparr>http_log = sent3, stdout = out4\<rparr>)))"

section \<open>Vocabulary of the statements\<close>

subsection \<open>Pages of the two sources\<close>

text \<open>
  A page of organization memberships, as the scheduling API sends it: a successful
  response whose body is an object; its \<^verbatim>\<open>collection\<close>, when there is one, is a list and
  its \<^verbatim>\<open>pagination\<close>, when there is one, is an object. The members of a page and its
  continuation pointer are read off the body; a missing field reads as no members and no
  pointer.
\<close>

definition calendly_members :: "response \<Rightarrow> json list" where
  "calendly_members r =
     (case content r of
        Some (JDict d) \<Rightarrow> (case map_of d ''collection'' of Some (JList ms) \<Rightarrow> ms | _ \<Rightarrow> [])
      | _ \<Rightarrow> [])"

definition calendly_next :: "response \<Rightarrow> json" where
  "calendly_next r =
     (case content r of
        Some (JDict d) \<Rightarrow>
          (case map_of d ''pagination'' of
             Some (JDict p) \<Rightarrow> (case map_of p ''next_page'' of Some u \<Rightarrow> u | None \<Rightarrow> JNull)
           | _ \<Rightarrow> JNull)
      | _ \<Rightarrow> JNull)"

definition calendly_wf :: "response \<Rightarrow> bool" where
  "calendly_wf r =
     (raise_for_status r = Inr () \<and>
      (case content r of
         Some (JDict d) \<Rightarrow>
           (case map_of d ''collection'' of
              None \<Rightarrow> True | Some (JList ms) \<Rightarrow> True | _ \<Rightarrow> False)
           \<and> (case map_of d ''pagination'' of
                None \<Rightarrow> True | Some (JDict p) \<Rightarrow> True | _ \<Rightarrow> False)
       | _ \<Rightarrow> False))"

text \<open>The email of a membership record, when the record has one: a string under
  \<^verbatim>\<open>user\<close>, \<^verbatim>\<open>email\<close>.\<close>

definition calendly_email :: "json \<Rightarrow> string option" where
  "calendly_email m =
     (case m of
        JDict d \<Rightarrow>
          (case map_of d ''user'' of
             Some (JDict u) \<Rightarrow> (case map_of u ''email'' of Some (JStr e) \<Rightarrow> Some e | _ \<Rightarrow> None)
           | _ \<Rightarrow> None)
      | _ \<Rightarrow> None)"

definition calendly_page_emails :: "response \<Rightarrow> string list" where
  "calendly_page_emails r = List.map_filter calendly_email (calendly_members r)"

text \<open>A membership record from which the nested field is missing: it has no \<^verbatim>\<open>user\<close>,
  or its \<^verbatim>\<open>user\<close> object has no \<^verbatim>\<open>email\<close>. A well-typed record either has the email or
  lacks the field.\<close>

definition lacks_user_email :: "json \<Rightarrow> bool" where
  "lacks_user_email m =
     (case m of
        JDict d \<Rightarrow>
          (case map_of d ''user'' of
             None \<Rightarrow> True
           | Some (JDict u) \<Rightarrow> map_of u ''email'' = None
           | _ \<Rightarrow> False)
      | _ \<Rightarrow> False)"

definition member_record :: "json \<Rightarrow> bool" where
  "member_record m = (calendly_email m \<noteq> None \<or> lacks_user_email m)"

text \<open>A page of group members, as the identity provider sends it: a successful response
  whose body is a list of users, each with a string under \<^verbatim>\<open>profile\<close>, \<^verbatim>\<open>email\<close>.\<close>

definition okta_email :: "json \<Rightarrow> string option" where
  "okta_email m =
     (case m of
        JDict d \<Rightarrow>
          (case map_of d ''profile'' of
             Some (JDict p) \<Rightarrow> (case map_of p ''email'' of Some (JStr e) \<Rightarrow> Some e | _ \<Rightarrow> None)
           | _ \<Rightarrow> None)
      | _ \<Rightarrow> None)"

definition okta_members :: "response \<Rightarrow> json list" where
  "okta_members r = (case content r of Some (JList ms) \<Rightarrow> ms | _ \<Rightarrow> [])"

definition okta_emails :: "response \<Rightarrow> string list" where
  "okta_emails r = List.map_filter okta_email (okta_members r)"

definition okta_wf :: "response \<Rightarrow> bool" where
  "okta_wf r =
     (raise_for_status r = Inr () \<and>
      (case content r of
         Some (JList ms) \<Rightarrow> list_all (\<lambda>m. okta_email m \<noteq> None) ms
       | _ \<Rightarrow> False))"

subsection \<open>Paginated response sequences\<close>

text \<open>
  The server answers the requests of a fetcher, starting at \<open>url\<close> after the requests
  \<open>sent\<close>, with the pages \<open>rs\<close>, one after the other: every page but the last names a
  next page, which is the URL of the following request, and the continuation pointer of
  the last page is absent or empty.
\<close>

fun calendly_session ::
  "server \<Rightarrow> (string \<times> string) list \<Rightarrow> request list \<Rightarrow> json \<Rightarrow> response list \<Rightarrow> bool" where
  "calendly_session srv headers sent url [] = False"
| "calendly_session srv headers sent url (r # rs) =
     (srv sent (requests_get url headers) = Inr r \<and> calendly_wf r \<and>
      (if rs = [] then \<not> truthy (calendly_next r)
       else truthy (calendly_next r) \<and>
            calendly_session srv headers (sent @ [requests_get url headers])
              (calendly_next r) rs))"

fun okta_session ::
  "server \<Rightarrow> (string \<times> string) list \<Rightarrow> request list \<Rightarrow> json \<Rightarrow> response list \<Rightarrow> bool" where
  "okta_session srv headers sent url [] = False"
| "okta_session srv headers sent url (r # rs) =
     (srv sent (requests_get url headers) = Inr r \<and> okta_wf r \<and>
      (if rs = [] then \<not> truthy (next_link r)
       else truthy (next_link r) \<and>
            okta_session srv headers (sent @ [requests_get url headers]) (next_link r) rs))"

text \<open>The requests of such a run: the first URL, then the pointer of every page but the
  last.\<close>

definition session_requests ::
  "(string \<times> string) list \<Rightarrow> json \<Rightarrow> json list \<Rightarrow> request list" where
  "session_requests headers url nexts = map (\<lambda>u. requests_get u headers) (url # butlast nexts)"

subsection \<open>Failed replies\<close>

text \<open>Request number \<open>i\<close> of a log was answered with a non-success status, one that
  \<^verbatim>\<open>raise_for_status\<close> rejects. The server saw the requests before it.\<close>

definition failed_reply :: "server \<Rightarrow> request list \<Rightarrow> nat \<Rightarrow> bool" where
  "failed_reply srv sent i =
     (case srv (take i sent) (sent ! i) of
        Inl e \<Rightarrow> False
      | Inr r \<Rightarrow> 400 \<le> status_code r \<and> status_code r < 600)"

text \<open>
  The replies of the server to the requests of a fetcher, starting at \<open>url\<close> after the
  requests \<open>sent\<close>, are \<open>rs\<close>, and the last of them has a status that
  \<^verbatim>\<open>raise_for_status\<close> rejects. The replies before it went through a round of the loop
  without an exception and named a next page: otherwise the fetcher would not have made
  the next request.
\<close>

fun calendly_fails ::
  "server \<Rightarrow> (string \<times> string) list \<Rightarrow> json \<Rightarrow> request list \<Rightarrow> response list \<Rightarrow> bool" where
  "calendly_fails srv headers url sent [] = False"
| "calendly_fails srv headers url sent (r # rs) =
     (truthy url \<and> srv sent (requests_get url headers) = Inr r \<and>
      (if rs = [] then 400 \<le> status_code r \<and> status_code r < 600
       else (case calendly_page r of
               Inl e \<Rightarrow> False
             | Inr (items, url') \<Rightarrow>
                 calendly_fails srv headers url' (sent @ [requests_get url headers]) rs)))"

fun okta_fails ::
  "(string \<Rightarrow> string) \<Rightarrow> server \<Rightarrow> (string \<times> string) list \<Rightarrow> json
     \<Rightarrow> (string \<times> json) list \<Rightarrow> request list \<Rightarrow> response list \<Rightarrow> bool" where
  "okta_fails lower srv headers url users sent [] = False"
| "okta_fails lower srv headers url users sent (r # rs) =
     (truthy url \<and> srv sent (requests_get url headers) = Inr r \<and>
      (if rs = [] then 400 \<le> status_code r \<and> status_code r < 600
       else (case okta_page lower r users of
               Inl e \<Rightarrow> False
             | Inr (users', url') \<Rightarrow>
                 okta_fails lower srv headers url' users'
                   (sent @ [requests_get url headers]) rs)))"

text \<open>What a fetcher does to the log: it appends GET requests only, and if one of them
  got a failed reply the fetcher raised \<^verbatim>\<open>HTTPError\<close>.\<close>

definition fetch_inv ::
  "server \<Rightarrow> request list \<Rightarrow> (error + 'a) \<Rightarrow> request list \<Rightarrow> bool" where
  "fetch_inv srv sent res sent' =
     ((\<exists>new. sent' = sent @ new \<and> (\<forall>rq\<in>set new. req_method rq = GET)) \<and>
      ((\<exists>i. length sent \<le> i \<and> i < length sent' \<and> failed_reply srv sent' i)
         \<longrightarrow> res = Inl HTTPError))"

text \<open>The test of the configuration in \<^verbatim>\<open>main\<close>.\<close>

definition env_ok :: "(string \<rightharpoonup> string) \<Rightarrow> bool" where
  "env_ok environ = list_all env_truthy
     [environ ''CALENDLY_API_TOKEN'', environ ''CALENDLY_ORG_URL'', environ ''OKTA_API_TOKEN'',
      environ ''OKTA_BASE_URL'', environ ''OKTA_CALENDLY_GROUP_ID'',
      environ ''SLACK_WEBHOOK_URL'']"

section \<open>Fixtures\<close>

text \<open>A lower-casing function for the fixtures: it folds the letters A to Z and leaves every
  other character as it is, which is what \<^verbatim>\<open>str.lower\<close> does on ASCII text.\<close>

definition ascii_lower_char :: "char \<Rightarrow> char" where
  "ascii_lower_char c =
     (let n = (of_char c :: nat) in if 65 \<le> n \<and> n \<le> 90 then char_of (n + 32) else c)"

definition ascii_lower :: "string \<Rightarrow> string" where
  "ascii_lower s = map ascii_lower_char s"

text \<open>Seventy distinct identifiers, for tallies above the allocation.\<close>

definition seventy :: "string fset" where
  "seventy = fset_of_list (map str_nat [0..<70])"

text \<open>A complete configuration.\<close>

definition env_full :: "string \<rightharpoonup> string" where
  "env_full = map_of
     [(''CALENDLY_API_TOKEN'', ''ctok''), (''CALENDLY_ORG_URL'', ''org''),
      (''OKTA_API_TOKEN'', ''otok''), (''OKTA_BASE_URL'', ''okta''),
      (''OKTA_CALENDLY_GROUP_ID'', ''g''), (''SLACK_WEBHOOK_URL'', ''hook'')]"

text \<open>Three pages of memberships and three pages of group members; the two sources share
  one person, whose email is spelt with capitals in the first.\<close>

definition calendly_member :: "string \<Rightarrow> json" where
  "calendly_member e = JDict [(''user'', JDict [(''email'', JStr e), (''name'', JStr ''n'')])]"

definition okta_user :: "string \<Rightarrow> string \<Rightarrow> json" where
  "okta_user st e = JDict [(''status'', JStr st), (''profile'', JDict [(''email'', JStr e)])]"

definition calendly_reply :: "json list \<Rightarrow> json \<Rightarrow> response" where
  "calendly_reply ms nxt =
     \<lparr>status_code = 200,
      content = Some (JDict [(''collection'', JList ms),
                             (''pagination'', JDict [(''next_page'', nxt)])]),
      links = []\<rparr>"

definition okta_reply ::
  "json list \<Rightarrow> (string \<times> (string \<times> string) list) list \<Rightarrow> response" where
  "okta_reply ms ls = \<lparr>status_code = 200, content = Some (JList ms), links = ls\<rparr>"

definition calendly_pages :: "response list" where
  "calendly_pages =
     [calendly_reply [calendly_member ''User@X.com'', calendly_member ''a@x.com'']
        (JStr ''c2''),
      calendly_reply [calendly_member ''b@x.com''] (JStr ''c3''),
      calendly_reply [calendly_member ''c@x.com''] JNull]"

definition okta_pages :: "response list" where
  "okta_pages =
     [okta_reply [okta_user ''ACTIVE'' ''user@x.com'']
        [(''next'', [(''url'', ''o2''), (''rel'', ''next'')])],
      okta_reply [okta_user ''SUSPENDED'' ''D@x.com'']
        [(''next'', [(''url'', ''o3''), (''rel'', ''next'')])],
      okta_reply [okta_user ''ACTIVE'' ''e@x.com'']
        [(''self'', [(''url'', ''o3''), (''rel'', ''self'')])]]"

definition fixture :: server where
  "fixture sent rq =
     (if req_method rq = POST then Inr \<lparr>status_code = 200, content = None, links = []\<rparr>
      else if req_url rq = JStr (calendly_url ''org'') then Inr (calendly_pages ! 0)
      else if req_url rq = JStr ''c2'' then Inr (calendly_pages ! 1)
      else if req_url rq = JStr ''c3'' then Inr (calendly_pages ! 2)
      else if req_url rq = JStr (okta_url ''okta'' ''g'') then Inr (okta_pages ! 0)
      else if req_url rq = JStr ''o2'' then Inr (okta_pages ! 1)
      else if req_url rq = JStr ''o3'' then Inr (okta_pages ! 2)
      else Inl RequestException)"

definition calendly_log :: "request list" where
  "calendly_log =
     [requests_get (JStr (calendly_url ''org'')) (calendly_headers ''ctok''),
      requests_get (JStr ''c2'') (calendly_headers ''ctok''),
      requests_get (JStr ''c3'') (calendly_headers ''ctok'')]"

definition okta_log :: "request list" where
  "okta_log =
     [requests_get (JStr (okta_url ''okta'' ''g'')) (okta_headers ''otok''),
      requests_get (JStr ''o2'') (okta_headers ''otok''),
      requests_get (JStr ''o3'') (okta_headers ''otok'')]"

text \<open>A server whose identity provider is down.\<close>

definition outage :: server where
  "outage sent rq =
     (if req_method rq = POST then Inr \<lparr>status_code = 200, content = None, links = []\<rparr>
      else if req_url rq = JStr (calendly_url ''org'')
        then Inr (calendly_reply [calendly_member ''a@x.com''] JNull)
      else Inr \<lparr>status_code = 503, content = None, links = []\<rparr>)"

definition outage_log :: "request list" where
  "outage_log =
     [requests_get (JStr (calendly_url ''org'')) (calendly_headers ''ctok''),
      requests_get (JStr (okta_url ''okta'' ''g'')) (okta_headers ''otok'')]"

text \<open>Two sources that share seventy members, each on one page.\<close>

definition crowd :: "string list" where
  "crowd = map str_nat [0..<70]"

definition crowded :: server where
  "crowded sent rq =
     (if req_method rq = POST then Inr \<lparr>status_code = 200, content = None, links = []\<rparr>
      else if req_url rq = JStr (calendly_url ''org'')
        then Inr (calendly_reply (map calendly_member crowd) JNull)
      else Inr (okta_reply (map (okta_user ''ACTIVE'') crowd) []))"

definition crowded_log :: "request list" where
  "crowded_log =
     [requests_get (JStr (calendly_url ''org'')) (calendly_headers ''ctok''),
      requests_get (JStr (okta_url ''okta'' ''g'')) (okta_headers ''otok'')]"

text \<open>A server whose scheduling API breaks on the second page.\<close>

definition calendly_down :: server where
  "calendly_down sent rq =
     (if req_url rq = JStr (calendly_url ''org'')
        then Inr (calendly_reply [calendly_member ''a@x.com''] (JStr ''c2''))
      else Inr \<lparr>status_code = 500, content = None, links = []\<rparr>)"

text \<open>A server whose scheduling API answers with status 302 and a page of members as its
  body.\<close>

definition redirect_page :: response where
  "redirect_page =
     \<lparr>status_code = 302,
      content = Some (JDict [(''collection'', JList [calendly_member ''a@x.com''])]),
      links = []\<rparr>"

definition redirecting :: server where
  "redirecting sent rq =
     (if req_method rq = POST then Inr \<lparr>status_code = 200, content = None, links = []\<rparr>
      else if req_url rq = JStr (calendly_url ''org'') then Inr redirect_page
      else Inr (okta_reply [okta_user ''ACTIVE'' ''a@x.com''] []))"

text \<open>Servers that answer every request with an empty object, and with an object whose
  \<^verbatim>\<open>collection\<close> is \<^verbatim>\<open>null\<close>.\<close>

definition bare_page :: response where
  "bare_page = \<lparr>status_code = 200, content = Some (JDict []), links = []\<rparr>"

definition bare :: server where
  "bare sent rq = Inr bare_page"

definition null_page :: response where
  "null_page = \<lparr>status_code = 200, content = Some (JDict [(''collection'', JNull)]), links = []\<rparr>"

definition malformed :: server where
  "malformed sent rq = Inr null_page"

section \<open>The reconciler\<close>

lemma calculate_license_counts_eq:
  "calculate_license_counts A B =
     \<lparr>total_licenses = 65, licenses_used = int (fcard (A |\<inter>| B)),
      licenses_available = 65 - int (fcard (A |\<inter>| B))\<rparr>"
  by (simp add: calculate_license_counts_def TOTAL_LICENSES_def Let_def)

lemma fcard_seventy: "fcard seventy = 70"
proof -
  have "distinct (map str_nat [0..<70])" by code_simp
  then have "card (set (map str_nat [0..<70])) = 70"
    by (simp only: distinct_card length_map length_upt)
  then show ?thesis by (simp add: seventy_def fcard.rep_eq fset_of_list.rep_eq)
qed

text \<open>
  C1. \<^verbatim>\<open>calculate_license_counts\<close> is a function of its two sets alone: the total is 65,
  the used count is the size of the intersection, the available count is 65 minus the
  used count. With A = {a@x.com, b@x.com} and B = {b@x.com, c@x.com} one license is used
  and 64 are available.
\<close>

theorem calculate_license_counts_triple:
  "calculate_license_counts A B =
     \<lparr>total_licenses = 65, licenses_used = int (card (fset A \<inter> fset B)),
      licenses_available = 65 - int (card (fset A \<inter> fset B))\<rparr>
   \<and> calculate_license_counts {|''a@x.com'', ''b@x.com''|} {|''b@x.com'', ''c@x.com''|} =
     \<lparr>total_licenses = 65, licenses_used = 1, licenses_available = 64\<rparr>"
  by (simp add: calculate_license_counts_def TOTAL_LICENSES_def Let_def fcard.rep_eq)

text \<open>
  C6. The used count does not depend on the order of the two sets, and it is at most the
  size of the smaller one.
\<close>

theorem licenses_used_symmetric_bounded:
  "licenses_used (calculate_license_counts A B) = licenses_used (calculate_license_counts B A)
   \<and> licenses_used (calculate_license_counts A B) \<le> int (min (fcard A) (fcard B))"
proof
  show "licenses_used (calculate_license_counts A B)
          = licenses_used (calculate_license_counts B A)"
    by (simp add: calculate_license_counts_eq inf_commute)
next
  have "fcard (A |\<inter>| B) \<le> fcard A" and "fcard (A |\<inter>| B) \<le> fcard B"
    by (simp_all add: fcard_mono)
  then show "licenses_used (calculate_license_counts A B) \<le> int (min (fcard A) (fcard B))"
    by (simp add: calculate_license_counts_eq)
qed

section \<open>Runs of the fixtures\<close>

lemma env_full_values:
  "the (env_full ''CALENDLY_API_TOKEN'') = ''ctok''"
  "the (env_full ''CALENDLY_ORG_URL'') = ''org''"
  "the (env_full ''OKTA_API_TOKEN'') = ''otok''"
  "the (env_full ''OKTA_BASE_URL'') = ''okta''"
  "the (env_full ''OKTA_CALENDLY_GROUP_ID'') = ''g''"
  "the (env_full ''SLACK_WEBHOOK_URL'') = ''hook''"
  by (simp_all add: env_full_def)

lemma env_full_ok: "env_ok env_full"
  by code_simp

lemma crowded_calendly:
  "fetch_calendly_users ascii_lower crowded ''ctok'' ''org'' [] = Some (Inr seventy, [crowded_log ! 0])"
  by code_simp

lemma crowded_okta:
  "fetch_okta_group_members ascii_lower crowded ''otok'' ''okta'' ''g'' [crowded_log ! 0]
     = Some (Inr seventy, crowded_log)"
  by code_simp

lemma fixture_fetch_calendly:
  "fetch_calendly_users ascii_lower fixture ''ctok'' ''org'' [] =
     Some (Inr {|''user@x.com'', ''a@x.com'', ''b@x.com'', ''c@x.com''|}, calendly_log)"
  by code_simp

lemma fixture_fetch_okta:
  "fetch_okta_group_members ascii_lower fixture ''otok'' ''okta'' ''g'' calendly_log =
     Some (Inr {|''user@x.com'', ''d@x.com'', ''e@x.com''|}, calendly_log @ okta_log)"
  by code_simp

lemma fixture_used:
  "licenses_used (calculate_license_counts
         {|''user@x.com'', ''a@x.com'', ''b@x.com'', ''c@x.com''|}
         {|''user@x.com'', ''d@x.com'', ''e@x.com''|}) \<le> 65"
  by code_simp

section \<open>The choice of template\<close>

lemma templates_differ: "overage_message lc \<noteq> report_message lc"
  by (simp add: overage_message_def report_message_def)

lemma overage_of_70:
  "sublist ''Overage: 5''
     (overage_message \<lparr>total_licenses = 65, licenses_used = 70, licenses_available = - 5\<rparr>)"
  by code_simp

text \<open>When both fetchers return, what \<^verbatim>\<open>main\<close> posts to the webhook is the message chosen for
  the tally of the two sets.\<close>

lemma main_posts_alert:
  assumes "env_ok environ"
    and "fetch_calendly_users lower srv (the (environ ''CALENDLY_API_TOKEN''))
           (the (environ ''CALENDLY_ORG_URL'')) [] = Some (Inr A, sent1)"
    and "fetch_okta_group_members lower srv (the (environ ''OKTA_API_TOKEN''))
           (the (environ ''OKTA_BASE_URL'')) (the (environ ''OKTA_CALENDLY_GROUP_ID'')) sent1
           = Some (Inr B, sent2)"
  shows "\<exists>r out. main lower srv environ =
           Some (r, \<lparr>http_log = sent2 @
                        [requests_post (JStr (the (environ ''SLACK_WEBHOOK_URL'')))
                           (JDict [(''text'',
                              JStr (alert_message (calculate_license_counts A B)))])],
                     stdout = out\<rparr>)"
  using assms by (simp add: main_def env_ok_def post_to_slack_def Let_def)

text \<open>
  C2. For a tally computed by \<^verbatim>\<open>calculate_license_counts\<close>, the available count is
  negative exactly when more than 65 licenses are used; then the message is the overage
  template. When at most 65 are used the message is the report template. The two
  templates never render the same text, so the message is never both. And this message,
  for the tally of the two fetched sets, is what a run of \<^verbatim>\<open>main\<close> posts to the webhook
  once both fetchers have returned.
\<close>

theorem template_selection:
  "(licenses_available (calculate_license_counts A B) < 0
      \<longleftrightarrow> licenses_used (calculate_license_counts A B) > 65)
   \<and> (licenses_available (calculate_license_counts A B) < 0
      \<longrightarrow> alert_message (calculate_license_counts A B)
            = overage_message (calculate_license_counts A B))
   \<and> (licenses_used (calculate_license_counts A B) \<le> 65
      \<longrightarrow> alert_message (calculate_license_counts A B)
            = report_message (calculate_license_counts A B))
   \<and> overage_message (calculate_license_counts A B)
       \<noteq> report_message (calculate_license_counts A B)
   \<and> (env_ok environ
      \<and> fetch_calendly_users lower srv (the (environ ''CALENDLY_API_TOKEN''))
            (the (environ ''CALENDLY_ORG_URL'')) [] = Some (Inr A, sent1)
      \<and> fetch_okta_group_members lower srv (the (environ ''OKTA_API_TOKEN''))
            (the (environ ''OKTA_BASE_URL'')) (the (environ ''OKTA_CALENDLY_GROUP_ID'')) sent1
            = Some (Inr B, sent2)
     \<longrightarrow> (\<exists>r out. main lower srv environ =
           Some (r, \<lparr>http_log = sent2 @
                        [requests_post (JStr (the (environ ''SLACK_WEBHOOK_URL'')))
                           (JDict [(''text'',
                              JStr (alert_message (calculate_license_counts A B)))])],
                     stdout = out\<rparr>)))"
proof -
  have "env_ok environ
      \<and> fetch_calendly_users lower srv (the (environ ''CALENDLY_API_TOKEN''))
            (the (environ ''CALENDLY_ORG_URL'')) [] = Some (Inr A, sent1)
      \<and> fetch_okta_group_members lower srv (the (environ ''OKTA_API_TOKEN''))
            (the (environ ''OKTA_BASE_URL'')) (the (environ ''OKTA_CALENDLY_GROUP_ID'')) sent1
            = Some (Inr B, sent2)
     \<longrightarrow> (\<exists>r out. main lower srv environ =
           Some (r, \<lparr>http_log = sent2 @
                        [requests_post (JStr (the (environ ''SLACK_WEBHOOK_URL'')))
                           (JDict [(''text'',
                              JStr (alert_message (calculate_license_counts A B)))])],
                     stdout = out\<rparr>))"
    using main_posts_alert [of environ lower srv A sent1 B sent2] by blast
  then show ?thesis
    by (simp add: calculate_license_counts_eq alert_message_def TOTAL_LICENSES_def
          templates_differ)
qed

theorem template_selection_witness:
  "env_ok env_full
   \<and> fetch_calendly_users ascii_lower crowded ''ctok'' ''org'' []
       = Some (Inr seventy, [crowded_log ! 0])
   \<and> fetch_okta_group_members ascii_lower crowded ''otok'' ''okta'' ''g'' [crowded_log ! 0]
       = Some (Inr seventy, crowded_log)
   \<and> licenses_available (calculate_license_counts seventy seventy) < 0
   \<and> (\<exists>r out. main ascii_lower crowded env_full =
         Some (r, \<lparr>http_log = crowded_log @
                      [requests_post (JStr ''hook'')
                         (JDict [(''text'',
                            JStr (overage_message (calculate_license_counts seventy seventy)))])],
                   stdout = out\<rparr>))
   \<and> fetch_calendly_users ascii_lower fixture ''ctok'' ''org'' [] =
       Some (Inr {|''user@x.com'', ''a@x.com'', ''b@x.com'', ''c@x.com''|}, calendly_log)
   \<and> fetch_okta_group_members ascii_lower fixture ''otok'' ''okta'' ''g'' calendly_log =
       Some (Inr {|''user@x.com'', ''d@x.com'', ''e@x.com''|}, calendly_log @ okta_log)
   \<and> licenses_used (calculate_license_counts
         {|''user@x.com'', ''a@x.com'', ''b@x.com'', ''c@x.com''|}
         {|''user@x.com'', ''d@x.com'', ''e@x.com''|}) \<le> 65
   \<and> (\<exists>r out. main ascii_lower fixture env_full =
         Some (r, \<lparr>http_log = (calendly_log @ okta_log) @
                      [requests_post (JStr ''hook'')
                         (JDict [(''text'',
                            JStr (report_message (calculate_license_counts
                               {|''user@x.com'', ''a@x.com'', ''b@x.com'', ''c@x.com''|}
                               {|''user@x.com'', ''d@x.com'', ''e@x.com''|})))])],
                   stdout = out\<rparr>))"
proof -
  have h1: "licenses_available (calculate_license_counts seventy seventy) < 0"
    by (simp add: calculate_license_counts_eq fcard_seventy)
  note over = template_selection
      [of seventy seventy env_full ascii_lower crowded "[crowded_log ! 0]" crowded_log,
       unfolded env_full_values]
  note norm = template_selection
      [of "{|''user@x.com'', ''a@x.com'', ''b@x.com'', ''c@x.com''|}"
          "{|''user@x.com'', ''d@x.com'', ''e@x.com''|}" env_full ascii_lower fixture
          calendly_log "calendly_log @ okta_log",
       unfolded env_full_values]
  from over h1 env_full_ok crowded_calendly crowded_okta
  have 1: "\<exists>r out. main ascii_lower crowded env_full =
         Some (r, \<lparr>http_log = crowded_log @
                      [requests_post (JStr ''hook'')
                         (JDict [(''text'',
                            JStr (overage_message (calculate_license_counts seventy seventy)))])],
                   stdout = out\<rparr>)"
    by metis
  from norm fixture_used env_full_ok fixture_fetch_calendly fixture_fetch_okta
  have 2: "\<exists>r out. main ascii_lower fixture env_full =
         Some (r, \<lparr>http_log = (calendly_log @ okta_log) @
                      [requests_post (JStr ''hook'')
                         (JDict [(''text'',
                            JStr (report_message (calculate_license_counts
                               {|''user@x.com'', ''a@x.com'', ''b@x.com'', ''c@x.com''|}
                               {|''user@x.com'', ''d@x.com'', ''e@x.com''|})))])],
                   stdout = out\<rparr>)"
    by metis
  from 1 2 h1 fixture_used env_full_ok crowded_calendly crowded_okta
    fixture_fetch_calendly fixture_fetch_okta
  show ?thesis by blast
qed

text \<open>
  C7. When the two fetched sets share exactly 70 emails, 70 licenses are used, minus 5 are
  available, the overage template is chosen and the message contains
  \<^verbatim>\<open>Overage: 5\<close>; a run of \<^verbatim>\<open>main\<close> in which the fetchers return these sets posts
  that message to the webhook.
\<close>

theorem overage_scenario:
  "fcard (A |\<inter>| B) = 70 \<Longrightarrow>
     calculate_license_counts A B =
       \<lparr>total_licenses = 65, licenses_used = 70, licenses_available = - 5\<rparr>
     \<and> alert_message (calculate_license_counts A B)
         = overage_message (calculate_license_counts A B)
     \<and> sublist ''Overage: 5'' (alert_message (calculate_license_counts A B))
     \<and> (env_ok environ
        \<and> fetch_calendly_users lower srv (the (environ ''CALENDLY_API_TOKEN''))
              (the (environ ''CALENDLY_ORG_URL'')) [] = Some (Inr A, sent1)
        \<and> fetch_okta_group_members lower srv (the (environ ''OKTA_API_TOKEN''))
              (the (environ ''OKTA_BASE_URL'')) (the (environ ''OKTA_CALENDLY_GROUP_ID''))
              sent1 = Some (Inr B, sent2)
       \<longrightarrow> (\<exists>r out. main lower srv environ =
             Some (r, \<lparr>http_log = sent2 @
                          [requests_post (JStr (the (environ ''SLACK_WEBHOOK_URL'')))
                             (JDict [(''text'',
                                JStr (alert_message (calculate_license_counts A B)))])],
                       stdout = out\<rparr>)))"
proof -
  assume c: "fcard (A |\<inter>| B) = 70"
  have "env_ok environ
      \<and> fetch_calendly_users lower srv (the (environ ''CALENDLY_API_TOKEN''))
            (the (environ ''CALENDLY_ORG_URL'')) [] = Some (Inr A, sent1)
      \<and> fetch_okta_group_members lower srv (the (environ ''OKTA_API_TOKEN''))
            (the (environ ''OKTA_BASE_URL'')) (the (environ ''OKTA_CALENDLY_GROUP_ID'')) sent1
            = Some (Inr B, sent2)
     \<longrightarrow> (\<exists>r out. main lower srv environ =
           Some (r, \<lparr>http_log = sent2 @
                        [requests_post (JStr (the (environ ''SLACK_WEBHOOK_URL'')))
                           (JDict [(''text'',
                              JStr (alert_message (calculate_license_counts A B)))])],
                     stdout = out\<rparr>))"
    using main_posts_alert [of environ lower srv A sent1 B sent2] by blast
  with c show ?thesis
    by (simp add: calculate_license_counts_eq alert_message_def TOTAL_LICENSES_def
          overage_of_70)
qed

theorem overage_scenario_witness:
  "fcard (seventy |\<inter>| seventy) = 70
   \<and> env_ok env_full
   \<and> fetch_calendly_users ascii_lower crowded ''ctok'' ''org'' []
       = Some (Inr seventy, [crowded_log ! 0])
   \<and> fetch_okta_group_members ascii_lower crowded ''otok'' ''okta'' ''g'' [crowded_log ! 0]
       = Some (Inr seventy, crowded_log)
   \<and> calculate_license_counts seventy seventy =
       \<lparr>total_licenses = 65, licenses_used = 70, licenses_available = - 5\<rparr>
   \<and> sublist ''Overage: 5'' (alert_message (calculate_license_counts seventy seventy))
   \<and> (\<exists>r out. main ascii_lower crowded env_full =
         Some (r, \<lparr>http_log = crowded_log @
                      [requests_post (JStr ''hook'')
                         (JDict [(''text'',
                            JStr (alert_message (calculate_license_counts seventy seventy)))])],
                   stdout = out\<rparr>))"
proof -
  have h: "fcard (seventy |\<inter>| seventy) = 70"
    by (simp add: fcard_seventy)
  note inst = overage_scenario
      [OF h, of env_full ascii_lower crowded "[crowded_log ! 0]" crowded_log,
       unfolded env_full_values]
  from inst env_full_ok crowded_calendly crowded_okta
  have "\<exists>r out. main ascii_lower crowded env_full =
         Some (r, \<lparr>http_log = crowded_log @
                      [requests_post (JStr ''hook'')
                         (JDict [(''text'',
                            JStr (alert_message (calculate_license_counts seventy seventy)))])],
                   stdout = out\<rparr>)"
    by blast
  with inst h env_full_ok crowded_calendly crowded_okta show ?thesis by blast
qed

section \<open>The configuration check\<close>

text \<open>
  C3. If one of the six required environment variables is not set, \<^verbatim>\<open>main\<close> raises
  \<^verbatim>\<open>ValueError\<close> and no request has been made (nor anything printed).
\<close>

theorem missing_variable_aborts:
  "k \<in> {''CALENDLY_API_TOKEN'', ''CALENDLY_ORG_URL'', ''OKTA_API_TOKEN'', ''OKTA_BASE_URL'',
         ''OKTA_CALENDLY_GROUP_ID'', ''SLACK_WEBHOOK_URL''} \<Longrightarrow>
   environ k = None \<Longrightarrow>
   main lower srv environ =
     Some (Inl (ValueError ''Missing required environment variables.''),
           \<lparr>http_log = [], stdout = []\<rparr>)"
  by (auto simp: main_def env_truthy_def)

theorem missing_variable_aborts_witness:
  "''OKTA_API_TOKEN'' \<in> {''CALENDLY_API_TOKEN'', ''CALENDLY_ORG_URL'', ''OKTA_API_TOKEN'',
       ''OKTA_BASE_URL'', ''OKTA_CALENDLY_GROUP_ID'', ''SLACK_WEBHOOK_URL''}
   \<and> (env_full(''OKTA_API_TOKEN'' := None)) ''OKTA_API_TOKEN'' = None
   \<and> main ascii_lower fixture (env_full(''OKTA_API_TOKEN'' := None)) =
       Some (Inl (ValueError ''Missing required environment variables.''),
             \<lparr>http_log = [], stdout = []\<rparr>)"
  using missing_variable_aborts
          [of "''OKTA_API_TOKEN''" "env_full(''OKTA_API_TOKEN'' := None)" ascii_lower fixture]
  by simp

text \<open>
  C9. The same happens when one of the six variables is set to the empty string.
\<close>

theorem empty_variable_aborts:
  "k \<in> {''CALENDLY_API_TOKEN'', ''CALENDLY_ORG_URL'', ''OKTA_API_TOKEN'', ''OKTA_BASE_URL'',
         ''OKTA_CALENDLY_GROUP_ID'', ''SLACK_WEBHOOK_URL''} \<Longrightarrow>
   environ k = Some [] \<Longrightarrow>
   main lower srv environ =
     Some (Inl (ValueError ''Missing required environment variables.''),
           \<lparr>http_log = [], stdout = []\<rparr>)"
  by (auto simp: main_def env_truthy_def)

theorem empty_variable_aborts_witness:
  "''SLACK_WEBHOOK_URL'' \<in> {''CALENDLY_API_TOKEN'', ''CALENDLY_ORG_URL'', ''OKTA_API_TOKEN'',
       ''OKTA_BASE_URL'', ''OKTA_CALENDLY_GROUP_ID'', ''SLACK_WEBHOOK_URL''}
   \<and> (env_full(''SLACK_WEBHOOK_URL'' \<mapsto> [])) ''SLACK_WEBHOOK_URL'' = Some []
   \<and> main ascii_lower fixture (env_full(''SLACK_WEBHOOK_URL'' \<mapsto> [])) =
       Some (Inl (ValueError ''Missing required environment variables.''),
             \<lparr>http_log = [], stdout = []\<rparr>)"
  using empty_variable_aborts
          [of "''SLACK_WEBHOOK_URL''" "env_full(''SLACK_WEBHOOK_URL'' \<mapsto> [])" ascii_lower
              fixture]
  by simp

section \<open>Pagination\<close>

lemma bind_e_simps [simp]: "bind_e (Inl e) f = Inl e" "bind_e (Inr x) f = f x"
  by (simp_all add: bind_e_def)

subsection \<open>Fetcher A\<close>

text \<open>A well-formed page passes through one round of the loop without an exception.\<close>

lemma calendly_page_wf:
  assumes "calendly_wf r"
  shows "calendly_page r = Inr (calendly_members r, calendly_next r)"
proof -
  from assms have st: "raise_for_status r = Inr ()"
    by (simp add: calendly_wf_def)
  from assms obtain d where d: "content r = Some (JDict d)"
    by (auto simp: calendly_wf_def split: option.splits json.splits)
  from assms d have c: "map_of d ''collection'' = None \<or> (\<exists>ms. map_of d ''collection'' = Some (JList ms))"
    by (auto simp: calendly_wf_def split: option.splits json.splits)
  from assms d have p: "map_of d ''pagination'' = None \<or> (\<exists>q. map_of d ''pagination'' = Some (JDict q))"
    by (auto simp: calendly_wf_def split: option.splits json.splits)
  have 1: "bind_e (py_get (JDict d) ''collection'' (JList [])) py_iter = Inr (calendly_members r)"
    using c by (auto simp: py_get_def py_iter_def calendly_members_def d)
  have 2: "bind_e (py_get (JDict d) ''pagination'' (JDict [])) (\<lambda>q. py_get q ''next_page'' JNull)
             = Inr (calendly_next r)"
    using p by (auto simp: py_get_def calendly_next_def d split: option.splits)
  show ?thesis
    using 1 2 by (auto simp: calendly_page_def st response_json_def d bind_e_def split: sum.splits)
qed

text \<open>The loop follows a paginated response sequence to its end and returns: induction on
  the pages still to come, for any accumulator and log.\<close>

lemma calendly_loop_session:
  "truthy url \<Longrightarrow> calendly_session srv headers sent url rs \<Longrightarrow>
   calendly_loop srv headers url users sent =
     Some (Inr (users @ concat (map calendly_members rs)),
           sent @ session_requests headers url (map calendly_next rs))"
proof (induction rs arbitrary: url users sent)
  case Nil
  then show ?case by simp
next
  case (Cons r rs)
  from Cons.prems have srv: "srv sent (requests_get url headers) = Inr r" and wf: "calendly_wf r"
    by simp_all
  show ?case
  proof (cases "rs = []")
    case True
    with Cons.prems have stop: "\<not> truthy (calendly_next r)" by simp
    show ?thesis
      apply (subst calendly_loop.simps)
      apply (simp add: Cons.prems(1) srv calendly_page_wf [OF wf])
      apply (subst calendly_loop.simps)
      apply (simp add: stop True session_requests_def)
      done
  next
    case False
    with Cons.prems have go: "truthy (calendly_next r)"
      and rest: "calendly_session srv headers (sent @ [requests_get url headers]) (calendly_next r) rs"
      by simp_all
    from False obtain r' rs' where rs: "rs = r' # rs'" by (cases rs) auto
    show ?thesis
      apply (subst calendly_loop.simps)
      apply (simp add: Cons.prems(1) srv calendly_page_wf [OF wf])
      apply (simp add: Cons.IH [OF go rest])
      apply (simp add: session_requests_def rs)
      done
  qed
qed

lemma calendly_email_SomeD:
  "calendly_email m = Some e \<Longrightarrow>
     \<exists>d u. m = JDict d \<and> map_of d ''user'' = Some (JDict u) \<and> map_of u ''email'' = Some (JStr e)"
  by (auto simp: calendly_email_def split: json.splits option.splits)

lemma calendly_emails_map_filter:
  "\<forall>m\<in>set ms. calendly_email m \<noteq> None \<Longrightarrow>
   calendly_emails lower ms = Inr (map lower (List.map_filter calendly_email ms))"
proof (induction ms)
  case Nil
  then show ?case by (simp add: List.map_filter_simps)
next
  case (Cons m ms)
  then obtain e where e: "calendly_email m = Some e" by auto
  from calendly_email_SomeD [OF e] obtain d u where
    "m = JDict d" "map_of d ''user'' = Some (JDict u)" "map_of u ''email'' = Some (JStr e)"
    by blast
  with Cons e show ?case
    by (simp add: py_getitem_def py_lower_def List.map_filter_simps)
qed

lemma truthy_calendly_url: "truthy (JStr (calendly_url org))"
  by (simp add: truthy_def calendly_url_def)

lemma fetch_calendly_pages:
  assumes "calendly_session srv (calendly_headers tok) sent (JStr (calendly_url org)) rs"
    and "\<forall>r\<in>set rs. \<forall>m\<in>set (calendly_members r). calendly_email m \<noteq> None"
  shows "fetch_calendly_users lower srv tok org sent =
     Some (Inr (fset_of_list (map lower (concat (map calendly_page_emails rs)))),
           sent @ session_requests (calendly_headers tok) (JStr (calendly_url org))
                    (map calendly_next rs))"
proof -
  from assms(2) have "\<forall>m\<in>set (concat (map calendly_members rs)). calendly_email m \<noteq> None"
    by auto
  from calendly_emails_map_filter [OF this]
  have "calendly_emails lower (concat (map calendly_members rs)) =
      Inr (map lower (List.map_filter calendly_email (concat (map calendly_members rs))))" .
  moreover have "List.map_filter calendly_email (concat (map calendly_members rs))
      = concat (map calendly_page_emails rs)"
    by (induction rs) (simp_all add: calendly_page_emails_def List.map_filter_def)
  ultimately have "calendly_emails lower (concat (map calendly_members rs)) =
      Inr (map lower (concat (map calendly_page_emails rs)))"
    by (simp only:)
  with calendly_loop_session [OF truthy_calendly_url assms(1), of "[]"]
  show ?thesis
    by (simp add: fetch_calendly_users_def)
qed

subsection \<open>Fetcher B\<close>

lemma okta_email_SomeD:
  "okta_email m = Some e \<Longrightarrow>
     \<exists>d p. m = JDict d \<and> map_of d ''profile'' = Some (JDict p) \<and> map_of p ''email'' = Some (JStr e)"
  by (auto simp: okta_email_def split: json.splits option.splits)

text \<open>The keys of \<^verbatim>\<open>users\<close> after the inner loop: those before it and the lower-cased
  emails of the page.\<close>

lemma okta_collect_keys:
  "\<forall>m\<in>set ms. okta_email m \<noteq> None \<Longrightarrow>
   \<exists>users'. okta_collect lower ms users = Inr users' \<and>
     fst ` set users' = fst ` set users \<union> lower ` set (List.map_filter okta_email ms)"
proof (induction ms arbitrary: users)
  case Nil
  then show ?case by (simp add: List.map_filter_simps)
next
  case (Cons m ms)
  then obtain e where e: "okta_email m = Some e" by auto
  from okta_email_SomeD [OF e] obtain d p where m:
    "m = JDict d" "map_of d ''profile'' = Some (JDict p)" "map_of p ''email'' = Some (JStr e)"
    by blast
  from Cons.prems have "\<forall>m\<in>set ms. okta_email m \<noteq> None" by simp
  from Cons.IH [OF this, of "AList.update (lower e) m users"]
  obtain users' where u: "okta_collect lower ms (AList.update (lower e) m users) = Inr users'"
    "fst ` set users' = fst ` set (AList.update (lower e) m users)
        \<union> lower ` set (List.map_filter okta_email ms)"
    by blast
  have "okta_collect lower (m # ms) users = Inr users'"
    using m u(1) by (simp add: py_getitem_def py_lower_def)
  moreover have "fst ` set users' = fst ` set users \<union> lower ` set (List.map_filter okta_email (m # ms))"
    using u(2) e by (simp add: List.map_filter_simps dom_update)
  ultimately show ?case by blast
qed

lemma okta_page_wf:
  assumes "okta_wf r"
  shows "\<exists>users'. okta_page lower r users = Inr (users', next_link r) \<and>
           fst ` set users' = fst ` set users \<union> lower ` set (okta_emails r)"
proof -
  from assms have st: "raise_for_status r = Inr ()"
    by (simp add: okta_wf_def)
  from assms obtain ms where ms: "content r = Some (JList ms)"
    by (auto simp: okta_wf_def split: option.splits json.splits)
  from assms ms have "\<forall>m\<in>set ms. okta_email m \<noteq> None"
    by (simp add: okta_wf_def list_all_iff)
  from okta_collect_keys [OF this, of lower users] obtain users' where
    u: "okta_collect lower ms users = Inr users'"
       "fst ` set users' = fst ` set users \<union> lower ` set (List.map_filter okta_email ms)"
    by blast
  have "okta_page lower r users = Inr (users', next_link r)"
    by (simp add: okta_page_def st response_json_def ms py_iter_def u(1))
  with u(2) show ?thesis
    by (auto simp: okta_emails_def okta_members_def ms)
qed

lemma okta_loop_session:
  "truthy url \<Longrightarrow> okta_session srv headers sent url rs \<Longrightarrow>
   \<exists>users'. okta_loop lower srv headers url users sent =
       Some (Inr users', sent @ session_requests headers url (map next_link rs))
     \<and> fst ` set users' = fst ` set users \<union> lower ` set (concat (map okta_emails rs))"
proof (induction rs arbitrary: url users sent)
  case Nil
  then show ?case by simp
next
  case (Cons r rs)
  from Cons.prems have srv: "srv sent (requests_get url headers) = Inr r" and wf: "okta_wf r"
    by simp_all
  from okta_page_wf [OF wf, of lower users] obtain users1 where
    pg: "okta_page lower r users = Inr (users1, next_link r)"
    and k1: "fst ` set users1 = fst ` set users \<union> lower ` set (okta_emails r)"
    by blast
  have unfold: "okta_loop lower srv headers url users sent =
      okta_loop lower srv headers (next_link r) users1 (sent @ [requests_get url headers])"
    by (subst okta_loop.simps) (simp add: Cons.prems(1) srv pg)
  show ?case
  proof (cases "rs = []")
    case True
    with Cons.prems have stop: "\<not> truthy (next_link r)" by simp
    have "okta_loop lower srv headers (next_link r) users1 (sent @ [requests_get url headers])
            = Some (Inr users1, sent @ [requests_get url headers])"
      by (subst okta_loop.simps) (simp add: stop)
    with unfold k1 True show ?thesis
      by (simp add: session_requests_def)
  next
    case False
    with Cons.prems have go: "truthy (next_link r)"
      and rest: "okta_session srv headers (sent @ [requests_get url headers]) (next_link r) rs"
      by simp_all
    from False obtain r' rs' where rs: "rs = r' # rs'" by (cases rs) auto
    from Cons.IH [OF go rest, of users1] obtain users' where
      l: "okta_loop lower srv headers (next_link r) users1 (sent @ [requests_get url headers]) =
            Some (Inr users', (sent @ [requests_get url headers])
                    @ session_requests headers (next_link r) (map next_link rs))"
      and k: "fst ` set users' = fst ` set users1 \<union> lower ` set (concat (map okta_emails rs))"
      by blast
    have "okta_loop lower srv headers url users sent =
            Some (Inr users', sent @ session_requests headers url (map next_link (r # rs)))"
      using unfold l by (simp add: session_requests_def rs)
    moreover have "fst ` set users' =
        fst ` set users \<union> lower ` set (concat (map okta_emails (r # rs)))"
      using k k1 by auto
    ultimately show ?thesis by blast
  qed
qed

lemma truthy_okta_url: "truthy (JStr (okta_url base g))"
  by (simp add: truthy_def okta_url_def)

lemma fset_of_list_cong: "set xs = set ys \<Longrightarrow> fset_of_list xs = fset_of_list ys"
  by (simp add: fset_inject [symmetric] fset_of_list.rep_eq)

lemma fetch_okta_pages:
  assumes "okta_session srv (okta_headers tok) sent (JStr (okta_url base g)) rs"
  shows "fetch_okta_group_members lower srv tok base g sent =
     Some (Inr (fset_of_list (map lower (concat (map okta_emails rs)))),
           sent @ session_requests (okta_headers tok) (JStr (okta_url base g))
                    (map next_link rs))"
proof -
  from okta_loop_session [OF truthy_okta_url assms, of lower "[]"] obtain users' where
    l: "okta_loop lower srv (okta_headers tok) (JStr (okta_url base g)) [] sent =
          Some (Inr users', sent @ session_requests (okta_headers tok) (JStr (okta_url base g))
                    (map next_link rs))"
    and k: "fst ` set users' = lower ` set (concat (map okta_emails rs))"
    by auto
  have "fset_of_list (map fst users') = fset_of_list (map lower (concat (map okta_emails rs)))"
    by (rule fset_of_list_cong) (simp add: k)
  with l show ?thesis
    by (simp add: fetch_okta_group_members_def)
qed

text \<open>
  C4. When the server answers a fetcher with a paginated response sequence whose last
  page has an absent or empty continuation pointer (\<^verbatim>\<open>pagination.next_page\<close> for
  fetcher A, the \<^verbatim>\<open>Link\<close> header of relation \<^verbatim>\<open>next\<close> for fetcher B), the fetcher
  returns, after one request per page, and the set it returns holds the member emails
  of all the pages, each as \<^verbatim>\<open>str.lower\<close> gives it.
\<close>

theorem pagination_terminates_and_accumulates:
  "(calendly_session srv (calendly_headers ctok) sent (JStr (calendly_url org)) rs
      \<and> (\<forall>r\<in>set rs. \<forall>m\<in>set (calendly_members r). calendly_email m \<noteq> None)
    \<longrightarrow> fetch_calendly_users lower srv ctok org sent =
          Some (Inr (fset_of_list (map lower (concat (map calendly_page_emails rs)))),
                sent @ session_requests (calendly_headers ctok) (JStr (calendly_url org))
                         (map calendly_next rs)))
   \<and> (okta_session srv' (okta_headers otok) sent' (JStr (okta_url base g)) rs'
    \<longrightarrow> fetch_okta_group_members lower srv' otok base g sent' =
          Some (Inr (fset_of_list (map lower (concat (map okta_emails rs')))),
                sent' @ session_requests (okta_headers otok) (JStr (okta_url base g))
                          (map next_link rs')))"
proof (intro conjI impI)
  assume "calendly_session srv (calendly_headers ctok) sent (JStr (calendly_url org)) rs
      \<and> (\<forall>r\<in>set rs. \<forall>m\<in>set (calendly_members r). calendly_email m \<noteq> None)"
  then have a: "calendly_session srv (calendly_headers ctok) sent (JStr (calendly_url org)) rs"
    and b: "\<forall>r\<in>set rs. \<forall>m\<in>set (calendly_members r). calendly_email m \<noteq> None"
    by blast+
  from fetch_calendly_pages [OF a b]
  show "fetch_calendly_users lower srv ctok org sent =
          Some (Inr (fset_of_list (map lower (concat (map calendly_page_emails rs)))),
                sent @ session_requests (calendly_headers ctok) (JStr (calendly_url org))
                         (map calendly_next rs))" .
next
  assume c: "okta_session srv' (okta_headers otok) sent' (JStr (okta_url base g)) rs'"
  from fetch_okta_pages [OF c]
  show "fetch_okta_group_members lower srv' otok base g sent' =
          Some (Inr (fset_of_list (map lower (concat (map okta_emails rs')))),
                sent' @ session_requests (okta_headers otok) (JStr (okta_url base g))
                          (map next_link rs'))" .
qed

lemma fixture_calendly_session:
  "calendly_session fixture (calendly_headers ''ctok'') [] (JStr (calendly_url ''org''))
     calendly_pages"
  by code_simp

lemma fixture_calendly_emails:
  "\<forall>r\<in>set calendly_pages. \<forall>m\<in>set (calendly_members r). calendly_email m \<noteq> None"
  by code_simp

lemma fixture_okta_session:
  "okta_session fixture (okta_headers ''otok'') calendly_log (JStr (okta_url ''okta'' ''g''))
     okta_pages"
  by code_simp

lemma fixture_calendly_result:
  "fset_of_list (map ascii_lower (concat (map calendly_page_emails calendly_pages)))
     = {|''user@x.com'', ''a@x.com'', ''b@x.com'', ''c@x.com''|}"
  by code_simp

lemma fixture_calendly_requests:
  "[] @ session_requests (calendly_headers ''ctok'') (JStr (calendly_url ''org''))
          (map calendly_next calendly_pages) = calendly_log"
  by code_simp

lemma fixture_okta_result:
  "fset_of_list (map ascii_lower (concat (map okta_emails okta_pages)))
     = {|''user@x.com'', ''d@x.com'', ''e@x.com''|}"
  by code_simp

lemma fixture_okta_requests:
  "calendly_log @ session_requests (okta_headers ''otok'') (JStr (okta_url ''okta'' ''g''))
          (map next_link okta_pages) = calendly_log @ okta_log"
  by code_simp

theorem pagination_terminates_and_accumulates_witness:
  "calendly_session fixture (calendly_headers ''ctok'') [] (JStr (calendly_url ''org''))
     calendly_pages
   \<and> okta_session fixture (okta_headers ''otok'') calendly_log (JStr (okta_url ''okta'' ''g''))
       okta_pages
   \<and> fetch_calendly_users ascii_lower fixture ''ctok'' ''org'' [] =
       Some (Inr {|''user@x.com'', ''a@x.com'', ''b@x.com'', ''c@x.com''|}, calendly_log)
   \<and> fetch_okta_group_members ascii_lower fixture ''otok'' ''okta'' ''g'' calendly_log =
       Some (Inr {|''user@x.com'', ''d@x.com'', ''e@x.com''|}, calendly_log @ okta_log)"
  using pagination_terminates_and_accumulates
          [of fixture "''ctok''" "[]" "''org''" calendly_pages ascii_lower
              fixture "''otok''" calendly_log "''okta''" "''g''" okta_pages]
    fixture_calendly_session fixture_calendly_emails fixture_okta_session
  by (simp only: fixture_calendly_result fixture_calendly_requests fixture_okta_result
        fixture_okta_requests simp_thms)

section \<open>Case-insensitive matching\<close>

lemma fcard_member_pos: "x |\<in>| S \<Longrightarrow> 0 < fcard S"
  by (auto simp: fcard.rep_eq card_gt_0_iff)

text \<open>
  C5. Both fetchers return the emails of their pages as \<^verbatim>\<open>str.lower\<close> gives them. So
  when an email of source A and an email of source B differ in case only, that is, have
  the same lower-case form, they are one element of both returned sets, and that element
  is counted as a used license; for instance \<^verbatim>\<open>User@X.com\<close> in source A and
  \<^verbatim>\<open>user@x.com\<close> in source B, which any lower-casing that folds A to Z sends to the
  same string.
\<close>

theorem case_insensitive_matching:
  assumes "calendly_session srv (calendly_headers ctok) sent (JStr (calendly_url org)) rs"
    and "\<forall>r\<in>set rs. \<forall>m\<in>set (calendly_members r). calendly_email m \<noteq> None"
    and "okta_session srv (okta_headers otok) sent' (JStr (okta_url base g)) rs'"
    and "a \<in> set (concat (map calendly_page_emails rs))"
    and "b \<in> set (concat (map okta_emails rs'))"
    and "lower a = lower b"
  shows "\<exists>A B sent1 sent2.
           fetch_calendly_users lower srv ctok org sent = Some (Inr A, sent1)
         \<and> fetch_okta_group_members lower srv otok base g sent' = Some (Inr B, sent2)
         \<and> lower a |\<in>| A |\<inter>| B
         \<and> 1 \<le> licenses_used (calculate_license_counts A B)"
proof -
  let ?A = "fset_of_list (map lower (concat (map calendly_page_emails rs)))"
  let ?B = "fset_of_list (map lower (concat (map okta_emails rs')))"
  from assms(4) have "lower a |\<in>| ?A"
    by (simp add: fset_of_list.rep_eq)
  moreover from assms(5,6) have "lower a |\<in>| ?B"
    by (simp add: fset_of_list.rep_eq)
  ultimately have mem: "lower a |\<in>| ?A |\<inter>| ?B"
    by simp
  have "licenses_used (calculate_license_counts ?A ?B) = int (fcard (?A |\<inter>| ?B))"
    by (simp add: calculate_license_counts_eq)
  with fcard_member_pos [OF mem] have "1 \<le> licenses_used (calculate_license_counts ?A ?B)"
    by linarith
  with mem fetch_calendly_pages [OF assms(1,2)] fetch_okta_pages [OF assms(3)]
  show ?thesis by blast
qed

theorem case_insensitive_matching_witness:
  "''User@X.com'' \<in> set (concat (map calendly_page_emails calendly_pages))
   \<and> ''user@x.com'' \<in> set (concat (map okta_emails okta_pages))
   \<and> ascii_lower ''User@X.com'' = ascii_lower ''user@x.com''
   \<and> ascii_lower ''User@X.com'' |\<in>|
         {|''user@x.com'', ''a@x.com'', ''b@x.com'', ''c@x.com''|}
           |\<inter>| {|''user@x.com'', ''d@x.com'', ''e@x.com''|}
   \<and> licenses_used (calculate_license_counts
         {|''user@x.com'', ''a@x.com'', ''b@x.com'', ''c@x.com''|}
         {|''user@x.com'', ''d@x.com'', ''e@x.com''|}) = 1"
proof -
  have a: "''User@X.com'' \<in> set (concat (map calendly_page_emails calendly_pages))"
    by code_simp
  have b: "''user@x.com'' \<in> set (concat (map okta_emails okta_pages))"
    by code_simp
  have ab: "ascii_lower ''User@X.com'' = ascii_lower ''user@x.com''"
    by code_simp
  from case_insensitive_matching
         [OF fixture_calendly_session fixture_calendly_emails fixture_okta_session a b ab]
  obtain A B sent1 sent2 where
    "fetch_calendly_users ascii_lower fixture ''ctok'' ''org'' [] = Some (Inr A, sent1)"
    "fetch_okta_group_members ascii_lower fixture ''otok'' ''okta'' ''g'' calendly_log = Some (Inr B, sent2)"
    "ascii_lower ''User@X.com'' |\<in>| A |\<inter>| B"
    by blast
  then have "ascii_lower ''User@X.com'' |\<in>|
         {|''user@x.com'', ''a@x.com'', ''b@x.com'', ''c@x.com''|}
           |\<inter>| {|''user@x.com'', ''d@x.com'', ''e@x.com''|}"
    by (simp add: fixture_fetch_calendly fixture_fetch_okta)
  moreover have "licenses_used (calculate_license_counts
         {|''user@x.com'', ''a@x.com'', ''b@x.com'', ''c@x.com''|}
         {|''user@x.com'', ''d@x.com'', ''e@x.com''|}) = 1"
    by code_simp
  ultimately show ?thesis
    using a b ab by blast
qed

section \<open>Failed fetches\<close>

lemma failed_reply_append:
  "i < length xs \<Longrightarrow> failed_reply srv (xs @ ys) i = failed_reply srv xs i"
  by (simp add: failed_reply_def nth_append)

lemma failed_reply_last:
  "failed_reply srv (xs @ rq # ys) (length xs) =
     (case srv xs rq of Inl e \<Rightarrow> False | Inr r \<Rightarrow> 400 \<le> status_code r \<and> status_code r < 600)"
  by (simp add: failed_reply_def)

lemma calendly_page_status:
  "400 \<le> status_code r \<and> status_code r < 600 \<Longrightarrow> calendly_page r = Inl HTTPError"
  by (simp add: calendly_page_def raise_for_status_def)

lemma okta_page_status:
  "400 \<le> status_code r \<and> status_code r < 600 \<Longrightarrow> okta_page lower r users = Inl HTTPError"
  by (simp add: okta_page_def raise_for_status_def)

lemma fetch_inv_stop:
  assumes "case srv sent rq of Inl e' \<Rightarrow> True
           | Inr r \<Rightarrow> 400 \<le> status_code r \<and> status_code r < 600 \<longrightarrow> e = HTTPError"
    and "req_method rq = GET"
  shows "fetch_inv srv sent (Inl e) (sent @ [rq])"
proof -
  have "e = HTTPError" if "length sent \<le> i" "i < length (sent @ [rq])"
    "failed_reply srv (sent @ [rq]) i" for i
  proof -
    from that have "i = length sent" by simp
    with that(3) assms(1) show ?thesis
      by (simp add: failed_reply_last split: sum.splits)
  qed
  with assms(2) show ?thesis
    by (auto simp: fetch_inv_def)
qed

lemma fetch_inv_step:
  assumes "fetch_inv srv (sent @ [rq]) res sent'"
    and "srv sent rq = Inr r" "\<not> (400 \<le> status_code r \<and> status_code r < 600)"
    and "req_method rq = GET"
  shows "fetch_inv srv sent res sent'"
proof -
  from assms(1) obtain new where new: "sent' = (sent @ [rq]) @ new"
    "\<forall>rq\<in>set new. req_method rq = GET"
    by (auto simp: fetch_inv_def)
  have "res = Inl HTTPError" if "length sent \<le> i" "i < length sent'" "failed_reply srv sent' i" for i
  proof (cases "i = length sent")
    case True
    with that(3) new(1) assms(2,3) show ?thesis
      by (simp add: failed_reply_last)
  next
    case False
    with that have "length (sent @ [rq]) \<le> i" by simp
    with that assms(1) show ?thesis
      by (auto simp: fetch_inv_def)
  qed
  with new assms(4) show ?thesis
    by (auto simp: fetch_inv_def)
qed

text \<open>Both loops keep the invariant; the proofs follow the recursion of the loops, by
  fixpoint induction, since the loops need not end.\<close>

lemma calendly_loop_inv:
  "calendly_loop srv headers url users sent = Some y \<Longrightarrow> fetch_inv srv sent (fst y) (snd y)"
proof (induction srv headers url users sent y rule: calendly_loop.raw_induct [rotated 1, consumes 1])
  case (1 loop srv headers url users sent y)
  show ?case
  proof (cases "truthy url")
    case False
    with 1(2) have "y = (Inr users, sent)" by simp
    then show ?thesis by (auto simp: fetch_inv_def)
  next
    case True
    note url = this
    show ?thesis
    proof (cases "srv sent (requests_get url headers)")
      case (Inl e)
      with 1(2) url have "y = (Inl e, sent @ [requests_get url headers])" by simp
      then show ?thesis
        using Inl by (simp add: fetch_inv_stop requests_get_def)
    next
      case (Inr r)
      show ?thesis
      proof (cases "calendly_page r")
        case (Inl e)
        with 1(2) url Inr have "y = (Inl e, sent @ [requests_get url headers])" by simp
        moreover have "400 \<le> status_code r \<and> status_code r < 600 \<longrightarrow> e = HTTPError"
          using calendly_page_status [of r] Inl by auto
        ultimately show ?thesis
          using Inr by (simp add: fetch_inv_stop requests_get_def)
      next
        case page: (Inr p)
        obtain items url' where p: "p = (items, url')" by (cases p)
        from 1(2) url Inr page p
        have "loop srv headers url' (users @ items) (sent @ [requests_get url headers]) = Some y"
          by simp
        from 1(1) [OF this]
        have inv: "fetch_inv srv (sent @ [requests_get url headers]) (fst y) (snd y)" .
        have good: "\<not> (400 \<le> status_code r \<and> status_code r < 600)"
          using calendly_page_status [of r] page by auto
        show ?thesis
          by (rule fetch_inv_step [OF inv Inr good]) (simp add: requests_get_def)
      qed
    qed
  qed
qed

lemma okta_loop_inv:
  "okta_loop lower srv headers url users sent = Some y \<Longrightarrow> fetch_inv srv sent (fst y) (snd y)"
proof (induction lower srv headers url users sent y
    rule: okta_loop.raw_induct [rotated 1, consumes 1])
  case (1 loop lower srv headers url users sent y)
  show ?case
  proof (cases "truthy url")
    case False
    with 1(2) have "y = (Inr users, sent)" by simp
    then show ?thesis by (auto simp: fetch_inv_def)
  next
    case True
    note url = this
    show ?thesis
    proof (cases "srv sent (requests_get url headers)")
      case (Inl e)
      with 1(2) url have "y = (Inl e, sent @ [requests_get url headers])" by simp
      then show ?thesis
        using Inl by (simp add: fetch_inv_stop requests_get_def)
    next
      case (Inr r)
      show ?thesis
      proof (cases "okta_page lower r users")
        case (Inl e)
        with 1(2) url Inr have "y = (Inl e, sent @ [requests_get url headers])" by simp
        moreover have "400 \<le> status_code r \<and> status_code r < 600 \<longrightarrow> e = HTTPError"
          using okta_page_status [of r lower users] Inl by auto
        ultimately show ?thesis
          using Inr by (simp add: fetch_inv_stop requests_get_def)
      next
        case page: (Inr p)
        obtain users' url' where p: "p = (users', url')" by (cases p)
        from 1(2) url Inr page p
        have "loop lower srv headers url' users' (sent @ [requests_get url headers]) = Some y"
          by simp
        from 1(1) [OF this]
        have inv: "fetch_inv srv (sent @ [requests_get url headers]) (fst y) (snd y)" .
        have good: "\<not> (400 \<le> status_code r \<and> status_code r < 600)"
          using okta_page_status [of r lower users] page by auto
        show ?thesis
          by (rule fetch_inv_step [OF inv Inr good]) (simp add: requests_get_def)
      qed
    qed
  qed
qed

lemma fetch_inv_Inl:
  "fetch_inv srv sent (Inl e :: error + 'a) sent' \<Longrightarrow> fetch_inv srv sent (Inl e :: error + 'b) sent'"
  by (simp add: fetch_inv_def)

lemma fetch_inv_Inr:
  "fetch_inv srv sent (Inr x :: error + 'a) sent' \<Longrightarrow> fetch_inv srv sent (res :: error + 'b) sent'"
  by (auto simp: fetch_inv_def)

lemma fetch_calendly_inv:
  assumes "fetch_calendly_users lower srv tok org sent = Some (res, sent')"
  shows "fetch_inv srv sent res sent'"
proof -
  from assms obtain lr where l:
    "calendly_loop srv (calendly_headers tok) (JStr (calendly_url org)) [] sent = Some (lr, sent')"
    by (auto simp: fetch_calendly_users_def split: option.splits sum.splits)
  from calendly_loop_inv [OF l] have inv: "fetch_inv srv sent lr sent'" by simp
  show ?thesis
  proof (cases lr)
    case (Inl e)
    with assms l have "res = Inl e" by (simp add: fetch_calendly_users_def)
    with inv Inl show ?thesis by (simp add: fetch_inv_Inl)
  next
    case (Inr users)
    with inv show ?thesis by (simp add: fetch_inv_Inr)
  qed
qed

lemma fetch_okta_inv:
  assumes "fetch_okta_group_members lower srv tok base g sent = Some (res, sent')"
  shows "fetch_inv srv sent res sent'"
proof -
  from assms obtain lr where l:
    "okta_loop lower srv (okta_headers tok) (JStr (okta_url base g)) [] sent = Some (lr, sent')"
    by (auto simp: fetch_okta_group_members_def split: option.splits sum.splits)
  from okta_loop_inv [OF l] have inv: "fetch_inv srv sent lr sent'" by simp
  show ?thesis
  proof (cases lr)
    case (Inl e)
    with assms l have "res = Inl e" by (simp add: fetch_okta_group_members_def)
    with inv Inl show ?thesis by (simp add: fetch_inv_Inl)
  next
    case (Inr users)
    with inv show ?thesis by (simp add: fetch_inv_Inr)
  qed
qed

text \<open>The four ways in which a run of \<^verbatim>\<open>main\<close> ends.\<close>

lemma main_cases:
  assumes "main lower srv environ = Some (res, w)"
  obtains
    (config) "res = Inl (ValueError ''Missing required environment variables.'')" "http_log w = []"
  | (calendly) e sent1 where
      "fetch_calendly_users lower srv (the (environ ''CALENDLY_API_TOKEN''))
         (the (environ ''CALENDLY_ORG_URL'')) [] = Some (Inl e, sent1)"
      "res = Inl e" "http_log w = sent1"
  | (okta) A sent1 e sent2 where
      "fetch_calendly_users lower srv (the (environ ''CALENDLY_API_TOKEN''))
         (the (environ ''CALENDLY_ORG_URL'')) [] = Some (Inr A, sent1)"
      "fetch_okta_group_members lower srv (the (environ ''OKTA_API_TOKEN''))
         (the (environ ''OKTA_BASE_URL'')) (the (environ ''OKTA_CALENDLY_GROUP_ID'')) sent1
         = Some (Inl e, sent2)"
      "res = Inl e" "http_log w = sent2"
  | (slack) A sent1 B sent2 where
      "fetch_calendly_users lower srv (the (environ ''CALENDLY_API_TOKEN''))
         (the (environ ''CALENDLY_ORG_URL'')) [] = Some (Inr A, sent1)"
      "fetch_okta_group_members lower srv (the (environ ''OKTA_API_TOKEN''))
         (the (environ ''OKTA_BASE_URL'')) (the (environ ''OKTA_CALENDLY_GROUP_ID'')) sent1
         = Some (Inr B, sent2)"
      "http_log w = sent2 @ [requests_post (JStr (the (environ ''SLACK_WEBHOOK_URL'')))
                               (JDict [(''text'', JStr (alert_message (calculate_license_counts A B)))])]"
proof (cases "env_ok environ")
  case False
  with assms have "res = Inl (ValueError ''Missing required environment variables.'')"
    "http_log w = []"
    by (auto simp: main_def env_ok_def)
  then show ?thesis by (rule config)
next
  case True
  note ok = this
  let ?c = "fetch_calendly_users lower srv (the (environ ''CALENDLY_API_TOKEN''))
         (the (environ ''CALENDLY_ORG_URL'')) []"
  from assms ok obtain r1 sent1 where c: "?c = Some (r1, sent1)"
    by (cases ?c) (auto simp: main_def env_ok_def)
  show ?thesis
  proof (cases r1)
    case (Inl e)
    with assms ok c have "res = Inl e" "http_log w = sent1"
      by (auto simp: main_def env_ok_def)
    with c Inl show ?thesis by (auto intro: calendly)
  next
    case (Inr A)
    note A = this
    let ?o = "fetch_okta_group_members lower srv (the (environ ''OKTA_API_TOKEN''))
         (the (environ ''OKTA_BASE_URL'')) (the (environ ''OKTA_CALENDLY_GROUP_ID'')) sent1"
    from assms ok c A obtain r2 sent2 where o: "?o = Some (r2, sent2)"
      by (cases ?o) (auto simp: main_def env_ok_def)
    show ?thesis
    proof (cases r2)
      case (Inl e)
      with assms ok c A o have "res = Inl e" "http_log w = sent2"
        by (auto simp: main_def env_ok_def)
      with c A o Inl show ?thesis by (auto intro: okta)
    next
      case (Inr B)
      with assms ok c A o have
        "http_log w = sent2 @ [requests_post (JStr (the (environ ''SLACK_WEBHOOK_URL'')))
                               (JDict [(''text'', JStr (alert_message (calculate_license_counts A B)))])]"
        by (auto simp: main_def env_ok_def post_to_slack_def Let_def)
      with c A o Inr show ?thesis by (auto intro: slack)
    qed
  qed
qed

lemma fetch_inv_GET:
  "fetch_inv srv [] res sent' \<Longrightarrow> list_all (\<lambda>rq. req_method rq = GET) sent'"
  by (auto simp: fetch_inv_def list_all_iff)

lemma fetch_inv_GET2:
  "fetch_inv srv [] r1 sent1 \<Longrightarrow> fetch_inv srv sent1 r2 sent2 \<Longrightarrow>
     list_all (\<lambda>rq. req_method rq = GET) sent2"
  by (auto simp: fetch_inv_def list_all_iff)

lemma fetch_inv_failed:
  "fetch_inv srv sent res sent' \<Longrightarrow> length sent \<le> i \<Longrightarrow> i < length sent' \<Longrightarrow>
     failed_reply srv sent' i \<Longrightarrow> res = Inl HTTPError"
  by (auto simp: fetch_inv_def)

lemma fetch_inv_prefix:
  "fetch_inv srv sent res sent' \<Longrightarrow> \<exists>new. sent' = sent @ new"
  by (auto simp: fetch_inv_def)

text \<open>In a run of \<^verbatim>\<open>main\<close> that ends, if a GET request was answered with a status that
  \<^verbatim>\<open>raise_for_status\<close> rejects, then the run ended with \<^verbatim>\<open>HTTPError\<close> and every
  request it made is a GET.\<close>

lemma failed_reply_ends_run:
  assumes "main lower srv environ = Some (res, w)"
    and "i < length (http_log w)"
    and "req_method (http_log w ! i) = GET"
    and "failed_reply srv (http_log w) i"
  shows "res = Inl HTTPError \<and> list_all (\<lambda>rq. req_method rq = GET) (http_log w)"
  using assms(1)
proof (cases rule: main_cases)
  case config
  with assms(2) show ?thesis by simp
next
  case (calendly e sent1)
  from fetch_calendly_inv [OF calendly(1)] have inv: "fetch_inv srv [] (Inl e :: error + string fset) sent1" .
  from fetch_inv_failed [OF inv, of i] assms(2,4) calendly(3) have "e = HTTPError" by simp
  with calendly(2,3) fetch_inv_GET [OF inv] show ?thesis by simp
next
  case (okta A sent1 e sent2)
  from fetch_calendly_inv [OF okta(1)] have inv1: "fetch_inv srv [] (Inr A :: error + string fset) sent1" .
  from fetch_okta_inv [OF okta(2)] have inv2: "fetch_inv srv sent1 (Inl e :: error + string fset) sent2" .
  from fetch_inv_prefix [OF inv2] obtain new where new: "sent2 = sent1 @ new" by blast
  have "\<not> i < length sent1"
  proof
    assume lt: "i < length sent1"
    with assms(4) okta(4) new have "failed_reply srv sent1 i"
      by (simp add: failed_reply_append)
    from fetch_inv_failed [OF inv1 _ lt this] show False by simp
  qed
  with fetch_inv_failed [OF inv2, of i] assms(2,4) okta(4) have "e = HTTPError" by simp
  with okta(3,4) fetch_inv_GET2 [OF inv1 inv2] show ?thesis by simp
next
  case (slack A sent1 B sent2)
  from fetch_calendly_inv [OF slack(1)] have inv1: "fetch_inv srv [] (Inr A :: error + string fset) sent1" .
  from fetch_okta_inv [OF slack(2)] have inv2: "fetch_inv srv sent1 (Inr B :: error + string fset) sent2" .
  from fetch_inv_prefix [OF inv2] obtain new where new: "sent2 = sent1 @ new" by blast
  from assms(2,3) slack(3) have lt2: "i < length sent2"
    by (cases "i = length sent2") (simp_all add: requests_post_def)
  with assms(4) slack(3) have f2: "failed_reply srv sent2 i"
    by (simp add: failed_reply_append)
  have False
  proof (cases "i < length sent1")
    case True
    with f2 new have "failed_reply srv sent1 i" by (simp add: failed_reply_append)
    from fetch_inv_failed [OF inv1 _ True this] show False by simp
  next
    case False
    with fetch_inv_failed [OF inv2 _ lt2 f2] show False by simp
  qed
  then show ?thesis ..
qed

text \<open>A failed reply ends the loop with \<^verbatim>\<open>HTTPError\<close>: induction on the replies before
  it.\<close>

lemma calendly_loop_fails:
  "calendly_fails srv headers url sent rs \<Longrightarrow>
     \<exists>sent'. calendly_loop srv headers url users sent = Some (Inl HTTPError, sent')"
proof (induction rs arbitrary: url users sent)
  case Nil
  then show ?case by simp
next
  case (Cons r rs)
  from Cons.prems have url: "truthy url" and srv: "srv sent (requests_get url headers) = Inr r"
    by simp_all
  show ?case
  proof (cases "rs = []")
    case True
    with Cons.prems have "calendly_page r = Inl HTTPError"
      by (simp add: calendly_page_status)
    then show ?thesis
      by (subst calendly_loop.simps) (simp add: url srv)
  next
    case False
    with Cons.prems obtain items url' where
      pg: "calendly_page r = Inr (items, url')"
      and rest: "calendly_fails srv headers url' (sent @ [requests_get url headers]) rs"
      by (auto split: sum.splits)
    from Cons.IH [OF rest, of "users @ items"] show ?thesis
      by (subst calendly_loop.simps) (simp add: url srv pg)
  qed
qed

lemma okta_loop_fails:
  "okta_fails lower srv headers url users sent rs \<Longrightarrow>
     \<exists>sent'. okta_loop lower srv headers url users sent = Some (Inl HTTPError, sent')"
proof (induction rs arbitrary: url users sent)
  case Nil
  then show ?case by simp
next
  case (Cons r rs)
  from Cons.prems have url: "truthy url" and srv: "srv sent (requests_get url headers) = Inr r"
    by simp_all
  show ?case
  proof (cases "rs = []")
    case True
    with Cons.prems have "okta_page lower r users = Inl HTTPError"
      by (simp add: okta_page_status)
    then show ?thesis
      by (subst okta_loop.simps) (simp add: url srv)
  next
    case False
    with Cons.prems obtain users' url' where
      pg: "okta_page lower r users = Inr (users', url')"
      and rest: "okta_fails lower srv headers url' users' (sent @ [requests_get url headers]) rs"
      by (auto split: sum.splits)
    from Cons.IH [OF rest] show ?thesis
      by (subst okta_loop.simps) (simp add: url srv pg)
  qed
qed

lemma fetch_calendly_fails:
  assumes "calendly_fails srv (calendly_headers tok) (JStr (calendly_url org)) sent rs"
  shows "\<exists>sent'. fetch_calendly_users lower srv tok org sent = Some (Inl HTTPError, sent')"
proof -
  from calendly_loop_fails [OF assms, of "[]"] obtain sent' where
    "calendly_loop srv (calendly_headers tok) (JStr (calendly_url org)) [] sent
       = Some (Inl HTTPError, sent')"
    by blast
  then have "fetch_calendly_users lower srv tok org sent = Some (Inl HTTPError, sent')"
    by (simp add: fetch_calendly_users_def)
  then show ?thesis by blast
qed

lemma fetch_okta_fails:
  assumes "okta_fails lower srv (okta_headers tok) (JStr (okta_url base g)) [] sent rs"
  shows "\<exists>sent'. fetch_okta_group_members lower srv tok base g sent = Some (Inl HTTPError, sent')"
proof -
  from okta_loop_fails [OF assms] obtain sent' where
    "okta_loop lower srv (okta_headers tok) (JStr (okta_url base g)) [] sent
       = Some (Inl HTTPError, sent')"
    by blast
  then have "fetch_okta_group_members lower srv tok base g sent = Some (Inl HTTPError, sent')"
    by (simp add: fetch_okta_group_members_def)
  then show ?thesis by blast
qed

text \<open>
  C8, as stated, fails: a reply need not be a success for the run to go on. Here the
  scheduling API answers with status 302 and a JSON body; \<^verbatim>\<open>raise_for_status\<close> accepts it,
  both fetchers return and the run ends with the POST to the webhook.
\<close>

theorem redirect_reaches_post:
  "redirecting [] (requests_get (JStr (calendly_url ''org'')) (calendly_headers ''ctok''))
     = Inr redirect_page
   \<and> status_code redirect_page = 302
   \<and> main ascii_lower redirecting env_full =
       Some (Inr (),
             \<lparr>http_log = crowded_log @
                [requests_post (JStr ''hook'')
                   (JDict [(''text'', JStr (report_message
                      \<lparr>total_licenses = 65, licenses_used = 1, licenses_available = 64\<rparr>))])],
              stdout = [''Fetching Calendly users...'', ''Fetching Okta group members...'',
                        ''Calculating license counts...'', ''Sending alert to Slack...'']\<rparr>)"
  by code_simp

text \<open>
  C8, amended. When a request of either fetcher is answered with a 4xx or 5xx status (the
  statuses that \<^verbatim>\<open>raise_for_status\<close> rejects), the run of \<^verbatim>\<open>main\<close> ends, with
  \<^verbatim>\<open>HTTPError\<close>, and every request it has made is a GET: the webhook POST is never
  attempted. The failed reply may come to fetcher A, or to fetcher B after fetcher A has
  returned.
\<close>

theorem failed_fetch_aborts:
  "(env_ok environ
      \<and> calendly_fails srv (calendly_headers (the (environ ''CALENDLY_API_TOKEN'')))
            (JStr (calendly_url (the (environ ''CALENDLY_ORG_URL'')))) [] rs
     \<longrightarrow> (\<exists>w. main lower srv environ = Some (Inl HTTPError, w)
            \<and> list_all (\<lambda>rq. req_method rq = GET) (http_log w)))
   \<and> (env_ok environ
      \<and> fetch_calendly_users lower srv (the (environ ''CALENDLY_API_TOKEN''))
            (the (environ ''CALENDLY_ORG_URL'')) [] = Some (Inr A, sent1)
      \<and> okta_fails lower srv (okta_headers (the (environ ''OKTA_API_TOKEN'')))
            (JStr (okta_url (the (environ ''OKTA_BASE_URL''))
                     (the (environ ''OKTA_CALENDLY_GROUP_ID'')))) [] sent1 rs'
     \<longrightarrow> (\<exists>w. main lower srv environ = Some (Inl HTTPError, w)
            \<and> list_all (\<lambda>rq. req_method rq = GET) (http_log w)))"
proof (intro conjI impI)
  assume h: "env_ok environ
      \<and> calendly_fails srv (calendly_headers (the (environ ''CALENDLY_API_TOKEN'')))
            (JStr (calendly_url (the (environ ''CALENDLY_ORG_URL'')))) [] rs"
  then have ok: "env_ok environ" by blast
  from h fetch_calendly_fails [of srv _ _ "[]" rs lower] obtain sent' where
    f: "fetch_calendly_users lower srv (the (environ ''CALENDLY_API_TOKEN''))
            (the (environ ''CALENDLY_ORG_URL'')) [] = Some (Inl HTTPError, sent')"
    by blast
  from fetch_calendly_inv [OF f] have "list_all (\<lambda>rq. req_method rq = GET) sent'"
    by (rule fetch_inv_GET)
  moreover from ok f have "main lower srv environ =
      Some (Inl HTTPError, \<lparr>http_log = sent', stdout = [''Fetching Calendly users...'']\<rparr>)"
    by (simp add: main_def env_ok_def)
  ultimately show "\<exists>w. main lower srv environ = Some (Inl HTTPError, w)
            \<and> list_all (\<lambda>rq. req_method rq = GET) (http_log w)"
    by simp
next
  assume h: "env_ok environ
      \<and> fetch_calendly_users lower srv (the (environ ''CALENDLY_API_TOKEN''))
            (the (environ ''CALENDLY_ORG_URL'')) [] = Some (Inr A, sent1)
      \<and> okta_fails lower srv (okta_headers (the (environ ''OKTA_API_TOKEN'')))
            (JStr (okta_url (the (environ ''OKTA_BASE_URL''))
                     (the (environ ''OKTA_CALENDLY_GROUP_ID'')))) [] sent1 rs'"
  then have ok: "env_ok environ"
    and c: "fetch_calendly_users lower srv (the (environ ''CALENDLY_API_TOKEN''))
            (the (environ ''CALENDLY_ORG_URL'')) [] = Some (Inr A, sent1)"
    by blast+
  from h fetch_okta_fails [of lower srv _ _ _ sent1 rs'] obtain sent2 where
    f: "fetch_okta_group_members lower srv (the (environ ''OKTA_API_TOKEN''))
          (the (environ ''OKTA_BASE_URL'')) (the (environ ''OKTA_CALENDLY_GROUP_ID'')) sent1
          = Some (Inl HTTPError, sent2)"
    by blast
  from fetch_inv_GET2 [OF fetch_calendly_inv [OF c] fetch_okta_inv [OF f]]
  have "list_all (\<lambda>rq. req_method rq = GET) sent2" .
  moreover from ok c f have "main lower srv environ =
      Some (Inl HTTPError,
            \<lparr>http_log = sent2,
             stdout = [''Fetching Calendly users...'', ''Fetching Okta group members...'']\<rparr>)"
    by (simp add: main_def env_ok_def)
  ultimately show "\<exists>w. main lower srv environ = Some (Inl HTTPError, w)
            \<and> list_all (\<lambda>rq. req_method rq = GET) (http_log w)"
    by simp
qed

lemma calendly_down_fails:
  "calendly_fails calendly_down (calendly_headers ''ctok'') (JStr (calendly_url ''org'')) []
     [calendly_reply [calendly_member ''a@x.com''] (JStr ''c2''),
      \<lparr>status_code = 500, content = None, links = []\<rparr>]"
  by code_simp

lemma outage_calendly:
  "fetch_calendly_users ascii_lower outage ''ctok'' ''org'' [] =
     Some (Inr {|''a@x.com''|}, [outage_log ! 0])"
  by code_simp

lemma outage_fails:
  "okta_fails ascii_lower outage (okta_headers ''otok'') (JStr (okta_url ''okta'' ''g'')) []
     [outage_log ! 0] [\<lparr>status_code = 503, content = None, links = []\<rparr>]"
  by code_simp

theorem failed_fetch_aborts_witness:
  "env_ok env_full
   \<and> calendly_fails calendly_down (calendly_headers ''ctok'') (JStr (calendly_url ''org'')) []
       [calendly_reply [calendly_member ''a@x.com''] (JStr ''c2''),
        \<lparr>status_code = 500, content = None, links = []\<rparr>]
   \<and> fetch_calendly_users ascii_lower outage ''ctok'' ''org'' [] =
       Some (Inr {|''a@x.com''|}, [outage_log ! 0])
   \<and> okta_fails ascii_lower outage (okta_headers ''otok'') (JStr (okta_url ''okta'' ''g'')) []
       [outage_log ! 0] [\<lparr>status_code = 503, content = None, links = []\<rparr>]
   \<and> (\<exists>w. main ascii_lower calendly_down env_full = Some (Inl HTTPError, w)
          \<and> list_all (\<lambda>rq. req_method rq = GET) (http_log w))
   \<and> (\<exists>w. main ascii_lower outage env_full = Some (Inl HTTPError, w)
          \<and> list_all (\<lambda>rq. req_method rq = GET) (http_log w))"
  using failed_fetch_aborts
          [of env_full calendly_down
              "[calendly_reply [calendly_member ''a@x.com''] (JStr ''c2''),
                \<lparr>status_code = 500, content = None, links = []\<rparr>]"
              ascii_lower "{|''a@x.com''|}" "[outage_log ! 0]"
              "[\<lparr>status_code = 503, content = None, links = []\<rparr>]"]
    failed_fetch_aborts
          [of env_full outage
              "[calendly_reply [calendly_member ''a@x.com''] (JStr ''c2''),
                \<lparr>status_code = 500, content = None, links = []\<rparr>]"
              ascii_lower "{|''a@x.com''|}" "[outage_log ! 0]"
              "[\<lparr>status_code = 503, content = None, links = []\<rparr>]"]
    env_full_ok calendly_down_fails outage_calendly outage_fails
  by (simp add: env_full_values)

section \<open>Missing keys in the pages of fetcher A\<close>

lemma lacks_user_email_raises:
  assumes "lacks_user_email m"
  shows "bind_e (py_getitem m ''user'') (\<lambda>usr. bind_e (py_getitem usr ''email'') f)
           = Inl (KeyError ''user'')
       \<or> bind_e (py_getitem m ''user'') (\<lambda>usr. bind_e (py_getitem usr ''email'') f)
           = Inl (KeyError ''email'')"
proof -
  from assms obtain d where d: "m = JDict d"
    by (auto simp: lacks_user_email_def split: json.splits)
  show ?thesis
  proof (cases "map_of d ''user''")
    case None
    with d show ?thesis by (simp add: py_getitem_def)
  next
    case (Some usr)
    with assms d obtain u where "usr = JDict u" "map_of u ''email'' = None"
      by (auto simp: lacks_user_email_def split: json.splits)
    with d Some show ?thesis by (simp add: py_getitem_def)
  qed
qed

text \<open>Over well-typed membership records the comprehension raises exactly when a record
  lacks the nested field, and then with \<^verbatim>\<open>KeyError\<close>.\<close>

lemma calendly_emails_member_records:
  "list_all member_record ms \<Longrightarrow>
     (case calendly_emails lower ms of
        Inl e \<Rightarrow> (e = KeyError ''user'' \<or> e = KeyError ''email'')
                   \<and> (\<exists>m\<in>set ms. lacks_user_email m)
      | Inr es \<Rightarrow> \<not> (\<exists>m\<in>set ms. lacks_user_email m))"
proof (induction ms)
  case Nil
  then show ?case by simp
next
  case (Cons m ms)
  show ?case
  proof (cases "lacks_user_email m")
    case True
    have "calendly_emails lower (m # ms) = Inl (KeyError ''user'')
        \<or> calendly_emails lower (m # ms) = Inl (KeyError ''email'')"
      using lacks_user_email_raises [OF True,
          of "\<lambda>e. bind_e (py_lower lower e) (\<lambda>s. bind_e (calendly_emails lower ms) (\<lambda>rest. Inr (s # rest)))"]
      by simp
    with True show ?thesis by auto
  next
    case False
    with Cons.prems obtain e where e: "calendly_email m = Some e"
      by (auto simp: member_record_def)
    from calendly_email_SomeD [OF e] obtain d u where
      "m = JDict d" "map_of d ''user'' = Some (JDict u)" "map_of u ''email'' = Some (JStr e)"
      by blast
    then have step: "calendly_emails lower (m # ms)
        = bind_e (calendly_emails lower ms) (\<lambda>rest. Inr (lower e # rest))"
      by (simp add: py_getitem_def py_lower_def)
    from Cons have IH: "case calendly_emails lower ms of
        Inl e \<Rightarrow> (e = KeyError ''user'' \<or> e = KeyError ''email'')
                   \<and> (\<exists>m\<in>set ms. lacks_user_email m)
      | Inr es \<Rightarrow> \<not> (\<exists>m\<in>set ms. lacks_user_email m)"
      by simp
    show ?thesis
      using IH False by (cases "calendly_emails lower ms") (simp_all add: step del: calendly_emails.simps)
  qed
qed

text \<open>With such records on well-formed pages the fetcher returns, and it raises exactly
  when a record lacks the nested field.\<close>

lemma fetch_calendly_member_records:
  assumes "calendly_session srv (calendly_headers tok) sent (JStr (calendly_url org)) rs"
    and "\<forall>r\<in>set rs. list_all member_record (calendly_members r)"
  shows "\<exists>res sent'. fetch_calendly_users lower srv tok org sent = Some (res, sent')
           \<and> ((\<exists>e. res = Inl e)
                \<longleftrightarrow> (\<exists>r\<in>set rs. \<exists>m\<in>set (calendly_members r). lacks_user_email m))"
proof -
  let ?ms = "concat (map calendly_members rs)"
  let ?sent' = "sent @ session_requests (calendly_headers tok) (JStr (calendly_url org))
                    (map calendly_next rs)"
  from assms(2) have "list_all member_record ?ms"
    by (auto simp: list_all_iff)
  from calendly_emails_member_records [OF this, of lower]
  have "(\<exists>e. calendly_emails lower ?ms = Inl e) \<longleftrightarrow> (\<exists>m\<in>set ?ms. lacks_user_email m)"
    by (cases "calendly_emails lower ?ms") auto
  then have iff: "(\<exists>e. bind_e (calendly_emails lower ?ms) (\<lambda>es. Inr (fset_of_list es)) = Inl e)
      \<longleftrightarrow> (\<exists>r\<in>set rs. \<exists>m\<in>set (calendly_members r). lacks_user_email m)"
    by (cases "calendly_emails lower ?ms") auto
  have "fetch_calendly_users lower srv tok org sent =
      Some (bind_e (calendly_emails lower ?ms) (\<lambda>es. Inr (fset_of_list es)), ?sent')"
    using calendly_loop_session [OF truthy_calendly_url assms(1), of "[]"]
    by (simp add: fetch_calendly_users_def)
  with iff show ?thesis by blast
qed

text \<open>
  C10, as stated, fails: a page may lack the \<^verbatim>\<open>pagination\<close> key and hold no membership
  record at all, and the fetcher still raises instead of stopping. Here the body is
  \<^verbatim>\<open>{"collection": null}\<close>: \<^verbatim>\<open>users.extend(None)\<close> raises \<^verbatim>\<open>TypeError\<close> after the
  first request.
\<close>

theorem calendly_null_collection_raises:
  "content null_page = Some (JDict [(''collection'', JNull)])
   \<and> map_of [(''collection'', JNull)] ''pagination'' = None
   \<and> calendly_members null_page = []
   \<and> fetch_calendly_users ascii_lower malformed ''ctok'' ''org'' [] =
       Some (Inl TypeError,
             [requests_get (JStr (calendly_url ''org'')) (calendly_headers ''ctok'')])"
  by code_simp

text \<open>
  C10, amended. Among successful pages whose body is an object, whose \<^verbatim>\<open>collection\<close>,
  when present, is a list and whose \<^verbatim>\<open>pagination\<close>, when present, is an object:
  a page without the \<^verbatim>\<open>collection\<close> key adds no member and raises nothing; after a page
  without the \<^verbatim>\<open>pagination\<close> key, or without \<^verbatim>\<open>next_page\<close> inside it, the loop stops
  and returns what it has accumulated. Over well-typed membership records the final
  comprehension raises exactly when some record lacks \<^verbatim>\<open>user\<close> or the \<^verbatim>\<open>email\<close> inside
  it, and what it raises is \<^verbatim>\<open>KeyError\<close>; so on a sequence of such pages with such
  records the fetcher returns, and it raises exactly when a record lacks the field.
\<close>

theorem calendly_missing_keys:
  "(calendly_wf r \<and> content r = Some (JDict d) \<and> map_of d ''collection'' = None
      \<longrightarrow> calendly_page r = Inr ([], calendly_next r))
   \<and> (truthy url \<and> srv sent (requests_get url headers) = Inr r \<and> calendly_wf r
        \<and> content r = Some (JDict d)
        \<and> (map_of d ''pagination'' = None
            \<or> (\<exists>p. map_of d ''pagination'' = Some (JDict p) \<and> map_of p ''next_page'' = None))
      \<longrightarrow> calendly_loop srv headers url users sent =
            Some (Inr (users @ calendly_members r), sent @ [requests_get url headers]))
   \<and> (list_all member_record ms
      \<longrightarrow> ((\<exists>e. calendly_emails lower ms = Inl e) \<longleftrightarrow> (\<exists>m\<in>set ms. lacks_user_email m))
         \<and> (\<forall>e. calendly_emails lower ms = Inl e \<longrightarrow> e = KeyError ''user'' \<or> e = KeyError ''email''))
   \<and> (calendly_session srv' (calendly_headers tok) sent' (JStr (calendly_url org)) rs
        \<and> (\<forall>r\<in>set rs. list_all member_record (calendly_members r))
      \<longrightarrow> (\<exists>res sent''. fetch_calendly_users lower srv' tok org sent' = Some (res, sent'')
             \<and> ((\<exists>e. res = Inl e)
                  \<longleftrightarrow> (\<exists>r\<in>set rs. \<exists>m\<in>set (calendly_members r). lacks_user_email m))))"
proof (intro conjI impI)
  assume a: "calendly_wf r \<and> content r = Some (JDict d) \<and> map_of d ''collection'' = None"
  then have "calendly_members r = []"
    by (simp add: calendly_members_def)
  with a calendly_page_wf [of r] show "calendly_page r = Inr ([], calendly_next r)"
    by simp
next
  assume b: "truthy url \<and> srv sent (requests_get url headers) = Inr r \<and> calendly_wf r
        \<and> content r = Some (JDict d)
        \<and> (map_of d ''pagination'' = None
            \<or> (\<exists>p. map_of d ''pagination'' = Some (JDict p) \<and> map_of p ''next_page'' = None))"
  then have "calendly_next r = JNull"
    by (auto simp: calendly_next_def)
  then have "\<not> truthy (calendly_next r)"
    by (simp add: truthy_def)
  with b have "calendly_session srv headers sent url [r]"
    by simp
  from calendly_loop_session [OF _ this, of users] b
  show "calendly_loop srv headers url users sent =
            Some (Inr (users @ calendly_members r), sent @ [requests_get url headers])"
    by (simp add: session_requests_def)
next
  assume c: "list_all member_record ms"
  from calendly_emails_member_records [OF c, of lower]
  show "(\<exists>e. calendly_emails lower ms = Inl e) \<longleftrightarrow> (\<exists>m\<in>set ms. lacks_user_email m)"
    by (cases "calendly_emails lower ms") auto
  from calendly_emails_member_records [OF c, of lower]
  show "\<forall>e. calendly_emails lower ms = Inl e \<longrightarrow> e = KeyError ''user'' \<or> e = KeyError ''email''"
    by (cases "calendly_emails lower ms") auto
next
  assume "calendly_session srv' (calendly_headers tok) sent' (JStr (calendly_url org)) rs
        \<and> (\<forall>r\<in>set rs. list_all member_record (calendly_members r))"
  then have a: "calendly_session srv' (calendly_headers tok) sent' (JStr (calendly_url org)) rs"
    and b: "\<forall>r\<in>set rs. list_all member_record (calendly_members r)"
    by blast+
  from fetch_calendly_member_records [OF a b]
  show "\<exists>res sent''. fetch_calendly_users lower srv' tok org sent' = Some (res, sent'')
             \<and> ((\<exists>e. res = Inl e)
                  \<longleftrightarrow> (\<exists>r\<in>set rs. \<exists>m\<in>set (calendly_members r). lacks_user_email m))" .
qed

theorem calendly_missing_keys_witness:
  "calendly_wf bare_page \<and> content bare_page = Some (JDict [])
   \<and> map_of ([] :: (string \<times> json) list) ''collection'' = None
   \<and> map_of ([] :: (string \<times> json) list) ''pagination'' = None
   \<and> truthy (JStr ''u'') \<and> bare [] (requests_get (JStr ''u'') []) = Inr bare_page
   \<and> list_all member_record
         [calendly_member ''a@x.com'', JDict [(''user'', JDict [(''name'', JStr ''n'')])]]
   \<and> lacks_user_email (JDict [(''user'', JDict [(''name'', JStr ''n'')])])
   \<and> calendly_session bare (calendly_headers ''ctok'') [] (JStr (calendly_url ''org''))
         [bare_page]
   \<and> list_all member_record (calendly_members bare_page)
   \<and> calendly_page bare_page = Inr ([], calendly_next bare_page)
   \<and> calendly_loop bare [] (JStr ''u'') [] [] =
        Some (Inr ([] @ calendly_members bare_page), [] @ [requests_get (JStr ''u'') []])
   \<and> (\<exists>e. calendly_emails ascii_lower
              [calendly_member ''a@x.com'', JDict [(''user'', JDict [(''name'', JStr ''n'')])]]
            = Inl e)
   \<and> (\<exists>res sent''. fetch_calendly_users ascii_lower bare ''ctok'' ''org'' [] = Some (res, sent''))"
proof -
  have w: "calendly_wf bare_page" by code_simp
  have c: "content bare_page = Some (JDict [])" by code_simp
  have t: "truthy (JStr ''u'')" by code_simp
  have s: "bare [] (requests_get (JStr ''u'') []) = Inr bare_page" by code_simp
  have m: "list_all member_record
         [calendly_member ''a@x.com'', JDict [(''user'', JDict [(''name'', JStr ''n'')])]]"
    by code_simp
  have l: "lacks_user_email (JDict [(''user'', JDict [(''name'', JStr ''n'')])])"
    by code_simp
  have q: "calendly_session bare (calendly_headers ''ctok'') [] (JStr (calendly_url ''org''))
         [bare_page]"
    by code_simp
  have r: "list_all member_record (calendly_members bare_page)"
    by code_simp
  note inst = calendly_missing_keys
      [of bare_page "[]" "JStr ''u''" bare "[]" "[]" "[]"
          "[calendly_member ''a@x.com'', JDict [(''user'', JDict [(''name'', JStr ''n'')])]]"
          ascii_lower bare "''ctok''" "[]" "''org''" "[bare_page]"]
  from inst w c have 1: "calendly_page bare_page = Inr ([], calendly_next bare_page)"
    by simp
  from inst w c t s have 2: "calendly_loop bare [] (JStr ''u'') [] [] =
        Some (Inr ([] @ calendly_members bare_page), [] @ [requests_get (JStr ''u'') []])"
    by simp
  from inst m l have 3: "\<exists>e. calendly_emails ascii_lower
              [calendly_member ''a@x.com'', JDict [(''user'', JDict [(''name'', JStr ''n'')])]]
            = Inl e"
    by simp
  from inst q r have 4: "\<exists>res sent''. fetch_calendly_users ascii_lower bare ''ctok'' ''org'' [] = Some (res, sent'')"
    by auto
  from w c t s m l q r 1 2 3 4 show ?thesis by simp
qed

end
